theory Spec2Isabelle
  imports Complex_Main "HOL-Library.AList" "HOL-Library.Word"
begin

section \<open>Live location tracking: the Store, the publisher hook and the presence view\<close>

text \<open>
  The development embeds three pieces of the repository:
  \<^item> the table \<open>live_locations\<close> of the migration that creates it (columns, the
    \<open>UNIQUE(user_id, match_id)\<close> constraint) with the three requests the hook sends to
    it (upsert on conflict \<open>user_id,match_id\<close>, delete by key, select by \<open>match_id\<close>);
  \<^item> the hook \<open>useLocationTracking\<close>: its four state variables, \<open>updateLocation\<close>,
    \<open>startTracking\<close>, \<open>stopTracking\<close>, \<open>fetchLocations\<close> and its two effects;
  \<^item> the marker effect of \<open>LiveTrackingMap\<close> (update, create, remove, fit bounds).

  Identifiers are UUIDs (the column type), taken as 128-bit words; a session
  identifier that the hook is given is the \<open>id\<close> of a row of \<open>donation_matches\<close>.
  Coordinates are JavaScript numbers; the code only copies and compares them, and they
  are taken as reals. A timestamp is a number of milliseconds.

  Every asynchronous operation of the hook is taken as one step: what it awaits is
  answered before the next operation starts.
\<close>

subsection \<open>Values\<close>

type_synonym uuid = "128 word"

type_synonym timestamp = nat

text \<open>
  An optional numeric property of a JavaScript object: missing, \<open>null\<close>, the number
  value \<open>NaN\<close> (what a device reports as the heading of a user who stands still), or
  a number. \<open>absent\<close> says that it is missing or \<open>null\<close>, which is what the
  operator \<open>??\<close> tests.
\<close>

datatype js_number = Undefined | Null | NaN | Num real

fun absent :: "js_number \<Rightarrow> bool" where
  "absent Undefined = True"
| "absent Null = True"
| "absent NaN = False"
| "absent (Num x) = False"

text \<open>The expression \<open>x ?? undefined\<close>.\<close>

fun nullish_undefined :: "js_number \<Rightarrow> js_number" where
  "nullish_undefined Undefined = Undefined"
| "nullish_undefined Null = Undefined"
| "nullish_undefined NaN = NaN"
| "nullish_undefined (Num x) = Num x"

text \<open>\<open>position.coords\<close> of a device location event, as far as the hook reads it.\<close>

record coords =
  coords_latitude :: real
  coords_longitude :: real
  coords_accuracy :: js_number
  coords_heading :: js_number
  coords_speed :: js_number

text \<open>The interface \<open>LocationData\<close>.\<close>

record LocationData =
  loc_latitude :: real
  loc_longitude :: real
  loc_accuracy :: js_number
  loc_heading :: js_number
  loc_speed :: js_number

text \<open>The object built by the success callback of \<open>watchPosition\<close>.\<close>

definition location_of_position :: "coords \<Rightarrow> LocationData" where
  "location_of_position c =
     \<lparr>loc_latitude = coords_latitude c,
      loc_longitude = coords_longitude c,
      loc_accuracy = coords_accuracy c,
      loc_heading = nullish_undefined (coords_heading c),
      loc_speed = nullish_undefined (coords_speed c)\<rparr>"

subsection \<open>The table \<open>live_locations\<close>\<close>

text \<open>
  A row of the table; \<open>match_id\<close> is the only nullable key column. The rows a select
  returns are cast to \<open>TrackedUser\<close> by the hook, so the same record serves for both.
\<close>

record live_location =
  row_id :: uuid
  user_id :: uuid
  match_id :: "uuid option"
  latitude :: real
  longitude :: real
  accuracy :: "real option"
  heading :: "real option"
  speed :: "real option"
  updated_at :: timestamp
  created_at :: timestamp

text \<open>The object literal that \<open>updateLocation\<close> passes to \<open>upsert\<close>.\<close>

record upsert_values =
  val_user_id :: uuid
  val_match_id :: uuid
  val_latitude :: real
  val_longitude :: real
  val_accuracy :: js_number
  val_heading :: js_number
  val_speed :: js_number
  val_updated_at :: timestamp

text \<open>
  What the environment supplies to one asynchronous operation: the client clock read by
  \<open>new Date()\<close>, the column defaults \<open>gen_random_uuid()\<close> and \<open>now()\<close> of the
  server, and whether the request reaches the Store and is admitted by it
  (\<open>store_ok\<close>) or is answered with an error and leaves the table as it is (transport
  failure, a policy or the foreign key refusing the request).
\<close>

record env =
  clock :: timestamp
  gen_random_uuid :: uuid
  server_now :: timestamp
  store_ok :: bool

definition has_key :: "uuid \<Rightarrow> uuid \<Rightarrow> live_location \<Rightarrow> bool" where
  "has_key u m r \<longleftrightarrow> user_id r = u \<and> match_id r = Some m"

text \<open>
  The keys that \<open>UNIQUE(user_id, match_id)\<close> ranges over: a row whose \<open>match_id\<close> is
  null never conflicts with another row.
\<close>

fun constrained_keys :: "live_location list \<Rightarrow> (uuid \<times> uuid) list" where
  "constrained_keys [] = []"
| "constrained_keys (r # rs) =
     (case match_id r of
        None \<Rightarrow> constrained_keys rs
      | Some m \<Rightarrow> (user_id r, m) # constrained_keys rs)"

definition unique_user_match :: "live_location list \<Rightarrow> bool" where
  "unique_user_match rows \<longleftrightarrow> distinct (constrained_keys rows)"

text \<open>
  A value stored in a column \<open>DECIMAL(p, s)\<close> is rounded to \<open>s\<close> decimals, halves
  away from zero; a rounded value that needs more than \<open>p\<close> digits is a numeric
  overflow, which fails the whole statement. A JavaScript number stands for the real
  number that its decimal text in the request body denotes.
\<close>

definition round_to :: "nat \<Rightarrow> real \<Rightarrow> real" where
  "round_to s x = sgn x * real_of_int \<lfloor>\<bar>x\<bar> * 10 ^ s + 1 / 2\<rfloor> / 10 ^ s"

definition decimal :: "nat \<Rightarrow> nat \<Rightarrow> real \<Rightarrow> real option" where
  "decimal p s x = (if \<bar>round_to s x\<bar> < 10 ^ (p - s) then Some (round_to s x) else None)"

text \<open>
  What the request body says about a nullable column: a property that is \<open>undefined\<close>
  is not serialised, so the column is not named; \<open>null\<close> and \<open>NaN\<close> are both
  serialised as \<open>null\<close>; a number is serialised as it is.
\<close>

datatype assignment = Omitted | SetNull | SetTo real

fun assign :: "nat \<Rightarrow> nat \<Rightarrow> js_number \<Rightarrow> assignment option" where
  "assign p s Undefined = Some Omitted"
| "assign p s Null = Some SetNull"
| "assign p s NaN = Some SetNull"
| "assign p s (Num x) = map_option SetTo (decimal p s x)"

text \<open>The request body read against the column types of the table.\<close>

record column_values =
  col_user_id :: uuid
  col_match_id :: uuid
  col_latitude :: real
  col_longitude :: real
  col_accuracy :: assignment
  col_heading :: assignment
  col_speed :: assignment
  col_updated_at :: timestamp

definition columns_of :: "upsert_values \<Rightarrow> column_values option" where
  "columns_of v =
     (case decimal 10 8 (val_latitude v) of
        None \<Rightarrow> None
      | Some la \<Rightarrow>
     (case decimal 11 8 (val_longitude v) of
        None \<Rightarrow> None
      | Some lo \<Rightarrow>
     (case assign 10 2 (val_accuracy v) of
        None \<Rightarrow> None
      | Some ac \<Rightarrow>
     (case assign 5 2 (val_heading v) of
        None \<Rightarrow> None
      | Some he \<Rightarrow>
     (case assign 10 2 (val_speed v) of
        None \<Rightarrow> None
      | Some sp \<Rightarrow>
          Some \<lparr>col_user_id = val_user_id v,
                col_match_id = val_match_id v,
                col_latitude = la,
                col_longitude = lo,
                col_accuracy = ac,
                col_heading = he,
                col_speed = sp,
                col_updated_at = val_updated_at v\<rparr>)))))"

text \<open>
  The value of a nullable column after the statement, from what it was: a column that
  the request does not name keeps its value on the update path and gets its default,
  NULL, on the insert path.
\<close>

fun set_column :: "assignment \<Rightarrow> real option \<Rightarrow> real option" where
  "set_column Omitted old = old"
| "set_column SetNull old = None"
| "set_column (SetTo x) old = Some x"

definition insert_row :: "env \<Rightarrow> column_values \<Rightarrow> live_location" where
  "insert_row e v =
     \<lparr>row_id = gen_random_uuid e,
      user_id = col_user_id v,
      match_id = Some (col_match_id v),
      latitude = col_latitude v,
      longitude = col_longitude v,
      accuracy = set_column (col_accuracy v) None,
      heading = set_column (col_heading v) None,
      speed = set_column (col_speed v) None,
      updated_at = col_updated_at v,
      created_at = server_now e\<rparr>"

definition update_row :: "column_values \<Rightarrow> live_location \<Rightarrow> live_location" where
  "update_row v r =
     r\<lparr>user_id := col_user_id v,
       match_id := Some (col_match_id v),
       latitude := col_latitude v,
       longitude := col_longitude v,
       accuracy := set_column (col_accuracy v) (accuracy r),
       heading := set_column (col_heading v) (heading r),
       speed := set_column (col_speed v) (speed r),
       updated_at := col_updated_at v\<rparr>"

text \<open>
  \<open>INSERT ... ON CONFLICT (user_id, match_id) DO UPDATE SET\<close> the columns of the
  request: the row that holds the key is updated where it stands; without one, a new
  row is inserted.
\<close>

fun upsert_rows :: "env \<Rightarrow> column_values \<Rightarrow> live_location list \<Rightarrow> live_location list" where
  "upsert_rows e v [] = [insert_row e v]"
| "upsert_rows e v (r # rs) =
     (if has_key (col_user_id v) (col_match_id v) r then update_row v r # rs
      else r # upsert_rows e v rs)"

text \<open>
  \<open>upsert(values, {onConflict: "user_id,match_id"})\<close>, when it reaches the table:
  \<open>None\<close> is the error of a numeric overflow.
\<close>

definition upsert :: "env \<Rightarrow> upsert_values \<Rightarrow> live_location list \<Rightarrow> live_location list option" where
  "upsert e v rows = map_option (\<lambda>cv. upsert_rows e cv rows) (columns_of v)"

text \<open>\<open>delete().eq("user_id", u).eq("match_id", m)\<close>.\<close>

definition delete_rows :: "uuid \<Rightarrow> uuid \<Rightarrow> live_location list \<Rightarrow> live_location list" where
  "delete_rows u m rows = filter (\<lambda>r. \<not> has_key u m r) rows"

text \<open>
  \<open>select("*").eq("match_id", m)\<close>, as answered to a party of the session (the read
  policy of the table shows the rows of a match to its parties).
\<close>

definition select_rows :: "uuid \<Rightarrow> live_location list \<Rightarrow> live_location list" where
  "select_rows m rows = filter (\<lambda>r. match_id r = Some m) rows"

datatype request = Upsert upsert_values | Delete uuid uuid | Select uuid

subsection \<open>The hook \<open>useLocationTracking\<close>\<close>

datatype variant = Default | Destructive

record toast =
  title :: string
  description :: string
  variant :: variant

text \<open>The four \<open>useState\<close> variables.\<close>

record hook_state =
  isTracking :: bool
  currentLocation :: "LocationData option"
  trackedUsers :: "live_location list"
  watchId :: "nat option"

text \<open>
  The hook with what it acts on. \<open>matchId\<close> is the argument of the hook, \<open>None\<close> when
  it is \<open>null\<close> or the empty string (the two values for which \<open>!matchId\<close> holds).
  \<open>rendered\<close> holds the state values of the last render: these are what the callbacks
  and effect cleanups created by that render read. \<open>pending\<close> holds the values written
  by the state setters, which the next render makes current. \<open>watches\<close> are the
  identifiers of the position watches registered with the device and not yet cleared;
  \<open>channels\<close> the sessions with an open change subscription; \<open>requests\<close> the requests
  sent to the Store, oldest first.
\<close>

record world =
  matchId :: "uuid option"
  auth_user :: "uuid option"
  store :: "live_location list"
  requests :: "request list"
  geolocation :: bool
  watches :: "nat list"
  next_watch :: nat
  channels :: "uuid list"
  toasts :: "toast list"
  console :: "string list"
  rendered :: hook_state
  pending :: hook_state

definition toast_add :: "toast \<Rightarrow> world \<Rightarrow> world" where
  "toast_add t w = w\<lparr>toasts := toasts w @ [t]\<rparr>"

definition clearWatch :: "nat \<Rightarrow> world \<Rightarrow> world" where
  "clearWatch k w = w\<lparr>watches := removeAll k (watches w)\<rparr>"

definition upsert_of :: "uuid \<Rightarrow> uuid \<Rightarrow> LocationData \<Rightarrow> timestamp \<Rightarrow> upsert_values" where
  "upsert_of u m l t =
     \<lparr>val_user_id = u,
      val_match_id = m,
      val_latitude = loc_latitude l,
      val_longitude = loc_longitude l,
      val_accuracy = loc_accuracy l,
      val_heading = loc_heading l,
      val_speed = loc_speed l,
      val_updated_at = t\<rparr>"

definition updateLocation :: "LocationData \<Rightarrow> env \<Rightarrow> world \<Rightarrow> world" where
  "updateLocation l e w =
     (case matchId w of
        None \<Rightarrow> w
      | Some m \<Rightarrow>
          (case auth_user w of
             None \<Rightarrow> w
           | Some u \<Rightarrow>
               (let v = upsert_of u m l (clock e);
                    w' = w\<lparr>requests := requests w @ [Upsert v]\<rparr>
                in case (if store_ok e then upsert e v (store w) else None) of
                     Some rows \<Rightarrow> w'\<lparr>store := rows\<rparr>
                   | None \<Rightarrow> w'\<lparr>console := console w @ [''Error updating location:'']\<rparr>)))"

definition capability_toast :: toast where
  "capability_toast =
     \<lparr>title = ''Error'',
      description = ''Geolocation is not supported by your browser'',
      variant = Destructive\<rparr>"

definition started_toast :: toast where
  "started_toast =
     \<lparr>title = ''Location Sharing Started'',
      description = ''Your location is now being shared with match participants'',
      variant = Default\<rparr>"

definition stopped_toast :: toast where
  "stopped_toast =
     \<lparr>title = ''Location Sharing Stopped'',
      description = ''Your location is no longer being shared'',
      variant = Default\<rparr>"

definition startTracking :: "world \<Rightarrow> world" where
  "startTracking w =
     (if \<not> geolocation w then toast_add capability_toast w
      else
        (let k = next_watch w;
             w1 = w\<lparr>watches := watches w @ [k], next_watch := Suc k\<rparr>;
             w2 = w1\<lparr>pending := (pending w1)\<lparr>watchId := Some k, isTracking := True\<rparr>\<rparr>
         in toast_add started_toast w2))"

text \<open>The two callbacks handed to \<open>watchPosition\<close>; a cleared watch delivers nothing.\<close>

definition on_position :: "nat \<Rightarrow> coords \<Rightarrow> env \<Rightarrow> world \<Rightarrow> world" where
  "on_position k c e w =
     (if k \<in> set (watches w) then
        (let l = location_of_position c;
             w1 = w\<lparr>pending := (pending w)\<lparr>currentLocation := Some l\<rparr>\<rparr>
         in updateLocation l e w1)
      else w)"

definition on_position_error :: "nat \<Rightarrow> string \<Rightarrow> world \<Rightarrow> world" where
  "on_position_error k msg w =
     (if k \<in> set (watches w) then
        toast_add \<lparr>title = ''Location Error'', description = msg, variant = Destructive\<rparr>
          (w\<lparr>console := console w @ [''Geolocation error:'']\<rparr>)
      else w)"

definition stopTracking :: "env \<Rightarrow> world \<Rightarrow> world" where
  "stopTracking e w =
     (let w1 = (case watchId (rendered w) of
                  None \<Rightarrow> w
                | Some k \<Rightarrow> (clearWatch k w)\<lparr>pending := (pending w)\<lparr>watchId := None\<rparr>\<rparr>);
          w2 = w1\<lparr>pending := (pending w1)\<lparr>isTracking := False, currentLocation := None\<rparr>\<rparr>;
          w3 = (case matchId w2 of
                  None \<Rightarrow> w2
                | Some m \<Rightarrow>
                    (case auth_user w2 of
                       None \<Rightarrow> w2
                     | Some u \<Rightarrow>
                         w2\<lparr>requests := requests w2 @ [Delete u m],
                            store := (if store_ok e then delete_rows u m (store w2)
                                      else store w2)\<rparr>))
      in toast_add stopped_toast w3)"

definition fetchLocations :: "uuid \<Rightarrow> env \<Rightarrow> world \<Rightarrow> world" where
  "fetchLocations m e w =
     (let w' = w\<lparr>requests := requests w @ [Select m]\<rparr>
      in if store_ok e
         then w'\<lparr>pending := (pending w')\<lparr>trackedUsers := select_rows m (store w)\<rparr>\<rparr>
         else w')"

text \<open>
  The effect on \<open>[matchId]\<close>: the initial fetch and the subscription. Its cleanup
  removes the channel.
\<close>

definition session_effect :: "env \<Rightarrow> world \<Rightarrow> world" where
  "session_effect e w =
     (case matchId w of
        None \<Rightarrow> w
      | Some m \<Rightarrow> (let w' = fetchLocations m e w in w'\<lparr>channels := channels w' @ [m]\<rparr>))"

definition session_cleanup :: "world \<Rightarrow> world" where
  "session_cleanup w =
     (case matchId w of
        None \<Rightarrow> w
      | Some m \<Rightarrow> w\<lparr>channels := remove1 m (channels w)\<rparr>)"

text \<open>A change notification for session \<open>m\<close>, delivered to the channel opened for it.\<close>

definition on_notification :: "uuid \<Rightarrow> env \<Rightarrow> world \<Rightarrow> world" where
  "on_notification m e w = (if m \<in> set (channels w) then fetchLocations m e w else w)"

text \<open>
  The cleanup of the effect on \<open>[watchId]\<close>, as created by the render whose
  \<open>watchId\<close> is \<open>rendered\<close>.
\<close>

definition watch_cleanup :: "world \<Rightarrow> world" where
  "watch_cleanup w =
     (case watchId (rendered w) of
        None \<Rightarrow> w
      | Some k \<Rightarrow> clearWatch k w)"

text \<open>
  A re-render: the pending state becomes the rendered one, and an effect whose
  dependency changed runs the cleanup of its previous instance first. Only \<open>watchId\<close>
  is a dependency that the state setters change.
\<close>

definition render :: "world \<Rightarrow> world" where
  "render w =
     (let w1 = (if watchId (pending w) \<noteq> watchId (rendered w) then watch_cleanup w else w)
      in w1\<lparr>rendered := pending w1\<rparr>)"

text \<open>Unmounting runs the cleanups of both effects, in the order of the effects.\<close>

definition unmount :: "world \<Rightarrow> world" where
  "unmount w = watch_cleanup (session_cleanup w)"

text \<open>The location events of one publisher, each with its environment, in order.\<close>

fun publish :: "(LocationData \<times> env) list \<Rightarrow> world \<Rightarrow> world" where
  "publish [] w = w"
| "publish ((l, e) # evs) w = publish evs (updateLocation l e w)"

definition initial_state :: hook_state where
  "initial_state =
     \<lparr>isTracking = False, currentLocation = None, trackedUsers = [], watchId = None\<rparr>"

subsection \<open>The marker effect of \<open>LiveTrackingMap\<close>\<close>

text \<open>
  A marker is a JavaScript object: \<open>mid\<close> is its identity, given by the allocation
  counter \<open>next_marker\<close> when \<open>new mapboxgl.Marker\<close> runs. A position is the pair
  \<open>[lng, lat]\<close>. The popup of a marker shows the \<open>updated_at\<close> of the row it was
  created from.
\<close>

type_synonym lnglat = "real \<times> real"

record marker =
  mid :: nat
  position :: lnglat
  popup :: timestamp

text \<open>
  The camera of the map, as the last request that set it: a centre with a zoom (the
  constructor of the map, \<open>flyTo\<close>), or \<open>fitBounds\<close> with the south-west and
  north-east corners, the padding and the zoom ceiling.
\<close>

datatype camera = Centre lnglat nat | Fitted lnglat lnglat nat nat

text \<open>
  The map object: its camera and the markers attached to it (\<open>addTo\<close>) and not yet
  removed, by identity.
\<close>

record mapbox =
  camera :: camera
  attached :: "nat list"

text \<open>
  The component: the state \<open>mapLoaded\<close>, the refs \<open>map.current\<close> and
  \<open>markersRef.current\<close> (an object used as a dictionary: keys in insertion order).
\<close>

record view =
  mapLoaded :: bool
  map_current :: "mapbox option"
  markersRef :: "(uuid \<times> marker) list"
  next_marker :: nat

text \<open>\<open>LngLatBounds\<close>: empty when constructed, then the hull of the points it was extended by.\<close>

type_synonym bounds = "(lnglat \<times> lnglat) option"

fun extend :: "lnglat \<Rightarrow> bounds \<Rightarrow> bounds" where
  "extend p None = Some (p, p)"
| "extend (x, y) (Some ((w, s), (e, n))) = Some ((min w x, min s y), (max e x, max n y))"

datatype error = EmptyBounds | InvalidLngLat

text \<open>
  \<open>LngLat.convert([lng, lat])\<close>, which \<open>setLngLat\<close> and \<open>extend\<close> apply to
  the pair they are given: the constructor of \<open>LngLat\<close> throws for a latitude
  outside \<open>[-90, 90]\<close>. The column \<open>DECIMAL(10, 8)\<close> admits such a latitude, and
  nothing between the table and the marker checks it. \<open>in_range\<close> says that the
  position of a row passes.
\<close>

definition LngLat_convert :: "lnglat \<Rightarrow> error + lnglat" where
  "LngLat_convert p = (if snd p > 90 \<or> snd p < - 90 then Inl InvalidLngLat else Inr p)"

definition in_range :: "live_location \<Rightarrow> bool" where
  "in_range u \<longleftrightarrow> - 90 \<le> latitude u \<and> latitude u \<le> 90"

text \<open>
  \<open>fitBounds(bounds, {padding: 50, maxZoom: 15})\<close>; bounds that were never extended
  have no corners to read, which is an exception.
\<close>

definition fitBounds :: "bounds \<Rightarrow> mapbox \<Rightarrow> error + mapbox" where
  "fitBounds b mb =
     (case b of
        None \<Rightarrow> Inl EmptyBounds
      | Some (sw, ne) \<Rightarrow> Inr (mb\<lparr>camera := Fitted sw ne 50 15\<rparr>))"

definition addTo :: "nat \<Rightarrow> view \<Rightarrow> view" where
  "addTo i v = v\<lparr>map_current := map_option (\<lambda>mb. mb\<lparr>attached := attached mb @ [i]\<rparr>) (map_current v)\<rparr>"

definition remove_marker :: "nat \<Rightarrow> view \<Rightarrow> view" where
  "remove_marker i v =
     v\<lparr>map_current := map_option (\<lambda>mb. mb\<lparr>attached := removeAll i (attached mb)\<rparr>) (map_current v)\<rparr>"

text \<open>
  The body of \<open>trackedUsers.forEach\<close>: move the marker of the user, or create one.
  The test \<open>markersRef.current[markerId]\<close> is a lookup of an own key: the keys are
  UUIDs, and no inherited property of an object has such a name.

  Each branch calls \<open>setLngLat\<close>, which converts the pair before it changes
  anything and throws when the conversion does; in the second branch
  \<open>new mapboxgl.Marker\<close> has allocated the marker by then. \<open>placed\<close> is the state
  after a body that did not throw, \<open>thrown\<close> the state after one that did. An
  exception leaves the loop and the effect at once, with the state as it then is.
\<close>

definition placed :: "live_location \<Rightarrow> view \<Rightarrow> view" where
  "placed u v =
     (case map_of (markersRef v) (user_id u) of
        Some mk \<Rightarrow>
          v\<lparr>markersRef :=
              AList.update (user_id u) (mk\<lparr>position := (longitude u, latitude u)\<rparr>) (markersRef v)\<rparr>
      | None \<Rightarrow>
          (let mk = \<lparr>mid = next_marker v, position = (longitude u, latitude u),
                     popup = updated_at u\<rparr>;
               v1 = addTo (mid mk) (v\<lparr>next_marker := Suc (next_marker v)\<rparr>)
           in v1\<lparr>markersRef := AList.update (user_id u) mk (markersRef v1)\<rparr>))"

definition thrown :: "live_location \<Rightarrow> view \<Rightarrow> view" where
  "thrown u v =
     (case map_of (markersRef v) (user_id u) of
        Some mk \<Rightarrow> v
      | None \<Rightarrow> v\<lparr>next_marker := Suc (next_marker v)\<rparr>)"

definition place_user :: "live_location \<Rightarrow> view \<Rightarrow> (error \<times> view) + view" where
  "place_user u v =
     (case LngLat_convert (longitude u, latitude u) of
        Inl err \<Rightarrow> Inl (err, thrown u v)
      | Inr p \<Rightarrow> Inr (placed u v))"

text \<open>The body of \<open>Object.keys(markersRef.current).forEach\<close>.\<close>

definition drop_marker :: "live_location list \<Rightarrow> uuid \<Rightarrow> view \<Rightarrow> view" where
  "drop_marker us k v =
     (if find (\<lambda>u. user_id u = k) us = None then
        (case map_of (markersRef v) k of
           None \<Rightarrow> v
         | Some mk \<Rightarrow> (remove_marker (mid mk) v)\<lparr>markersRef := AList.delete k (markersRef v)\<rparr>)
      else v)"

fun place_all :: "live_location list \<Rightarrow> view \<Rightarrow> (error \<times> view) + view" where
  "place_all [] v = Inr v"
| "place_all (u # us) v =
     (case place_user u v of
        Inl ev \<Rightarrow> Inl ev
      | Inr v' \<Rightarrow> place_all us v')"

definition drop_stale :: "live_location list \<Rightarrow> view \<Rightarrow> view" where
  "drop_stale us v = fold (drop_marker us) (map fst (markersRef v)) v"

text \<open>The loop \<open>bounds.extend([user.longitude, user.latitude])\<close> over the tracked users.\<close>

fun extend_all :: "live_location list \<Rightarrow> bounds \<Rightarrow> error + bounds" where
  "extend_all [] b = Inr b"
| "extend_all (u # us) b =
     (case LngLat_convert (longitude u, latitude u) of
        Inl err \<Rightarrow> Inl err
      | Inr p \<Rightarrow> extend_all us (extend p b))"

text \<open>
  The effect on \<open>[trackedUsers, mapLoaded]\<close>. It returns at once while the map is not
  ready; otherwise it places every tracked user, drops the markers of the others and,
  for a non-empty list, fits the camera to all tracked positions. The result is the
  state of the component when the run ends, together with the exception when one ended
  it. What React then does with the exception of an effect is not part of the
  component and is not described here.
\<close>

definition reconcile :: "live_location list \<Rightarrow> view \<Rightarrow> (error \<times> view) + view" where
  "reconcile us v =
     (if \<not> mapLoaded v \<or> map_current v = None then Inr v
      else
        (case place_all us v of
           Inl ev \<Rightarrow> Inl ev
         | Inr v1 \<Rightarrow>
             (let v2 = drop_stale us v1
              in if length us > 0 then
                   (case extend_all us None of
                      Inl err \<Rightarrow> Inl (err, v2)
                    | Inr b \<Rightarrow>
                        (case map_current v2 of
                           None \<Rightarrow> Inr v2
                         | Some mb \<Rightarrow>
                             (case fitBounds b mb of
                                Inl err \<Rightarrow> Inl (err, v2)
                              | Inr mb' \<Rightarrow> Inr (v2\<lparr>map_current := Some mb'\<rparr>))))
                 else Inr v2)))"

fun state_of :: "(error \<times> view) + view \<Rightarrow> view" where
  "state_of (Inl (err, v)) = v"
| "state_of (Inr v) = v"

text \<open>
  For the statements: the state after every tracked user was placed without an
  exception, and the hull of the tracked positions.
\<close>

definition placed_all :: "live_location list \<Rightarrow> view \<Rightarrow> view" where
  "placed_all us v = fold placed us v"

definition bounds_of :: "live_location list \<Rightarrow> bounds" where
  "bounds_of us = fold (\<lambda>u b. extend (longitude u, latitude u) b) us None"

text \<open>The component after its first effect has created the map, and the \<open>load\<close> event.\<close>

definition mounted_view :: view where
  "mounted_view =
     \<lparr>mapLoaded = False,
      map_current = Some \<lparr>camera = Centre (0, 0) 2, attached = []\<rparr>,
      markersRef = [],
      next_marker = 0\<rparr>"

definition on_load :: "view \<Rightarrow> view" where
  "on_load v = v\<lparr>mapLoaded := True\<rparr>"

text \<open>
  What every state of the component satisfies: the keys of \<open>markersRef.current\<close> are
  pairwise different (it is an object), so are the markers behind them, each of them
  was allocated before and is on the map, and markers exist only once the map is ready.
\<close>

definition view_ok :: "view \<Rightarrow> bool" where
  "view_ok v \<longleftrightarrow>
     distinct (map fst (markersRef v)) \<and>
     distinct (map (\<lambda>p. mid (snd p)) (markersRef v)) \<and>
     list_all (\<lambda>p. mid (snd p) < next_marker v) (markersRef v) \<and>
     (case map_current v of
        None \<Rightarrow> markersRef v = []
      | Some mb \<Rightarrow>
          (mapLoaded v \<or> markersRef v = []) \<and>
          list_all (\<lambda>i. i < next_marker v) (attached mb) \<and>
          list_all (\<lambda>p. mid (snd p) \<in> set (attached mb)) (markersRef v))"


subsection \<open>Watch identifiers\<close>

text \<open>
  The device hands out watch identifiers in increasing order, so every identifier in
  use is below the next one.
\<close>

definition world_ok :: "world \<Rightarrow> bool" where
  "world_ok w \<longleftrightarrow>
     list_all (\<lambda>k. k < next_watch w) (watches w) \<and>
     (case watchId (rendered w) of None \<Rightarrow> True | Some k \<Rightarrow> k < next_watch w) \<and>
     (case watchId (pending w) of None \<Rightarrow> True | Some k \<Rightarrow> k < next_watch w)"

subsection \<open>Sample states\<close>

text \<open>
  Session \<open>7\<close> with the participants \<open>1\<close>, \<open>2\<close> and \<open>3\<close>; participant \<open>1\<close> is
  the user of the hook. Participant \<open>1\<close> is at latitude 10, longitude 20 and
  participant \<open>2\<close> at latitude 10.1, longitude 20.1.
\<close>

definition sample_world :: world where
  "sample_world =
     \<lparr>matchId = Some 7, auth_user = Some 1, store = [], requests = [], geolocation = True,
      watches = [], next_watch = 1, channels = [], toasts = [], console = [],
      rendered = initial_state, pending = initial_state\<rparr>"

definition env_ok :: env where
  "env_ok = \<lparr>clock = 1000, gen_random_uuid = 100, server_now = 1001, store_ok = True\<rparr>"

definition env_failed :: env where
  "env_failed = \<lparr>clock = 2000, gen_random_uuid = 101, server_now = 2001, store_ok = False\<rparr>"

definition raw_position :: coords where
  "raw_position =
     \<lparr>coords_latitude = 10, coords_longitude = 20, coords_accuracy = Num 5,
      coords_heading = Null, coords_speed = Undefined\<rparr>"

definition here :: LocationData where
  "here = location_of_position raw_position"

definition there :: LocationData where
  "there =
     \<lparr>loc_latitude = 11, loc_longitude = 21, loc_accuracy = Num 6,
      loc_heading = Num 90, loc_speed = Undefined\<rparr>"

definition row_U1 :: live_location where
  "row_U1 =
     \<lparr>row_id = 100, user_id = 1, match_id = Some 7, latitude = 10, longitude = 20,
      accuracy = Some 5, heading = None, speed = None, updated_at = 1000, created_at = 1001\<rparr>"

definition row_U2 :: live_location where
  "row_U2 =
     \<lparr>row_id = 102, user_id = 2, match_id = Some 7, latitude = 101 / 10,
      longitude = 201 / 10, accuracy = None, heading = None, speed = None,
      updated_at = 1500, created_at = 1200\<rparr>"

definition raw_moving :: coords where
  "raw_moving =
     \<lparr>coords_latitude = 10123456789 / 10 ^ 9, coords_longitude = 20, coords_accuracy = Num 5,
      coords_heading = Num 90, coords_speed = Num 3\<rparr>"




definition two_rows :: world where
  "two_rows = sample_world\<lparr>store := [row_U1, row_U2]\<rparr>"

definition view_U1_U2 :: view where
  "view_U1_U2 =
     \<lparr>mapLoaded = True,
      map_current = Some \<lparr>camera = Fitted (20, 10) (201 / 10, 101 / 10) 50 15, attached = [0, 1]\<rparr>,
      markersRef = [(1, \<lparr>mid = 0, position = (20, 10), popup = 1000\<rparr>),
                    (2, \<lparr>mid = 1, position = (201 / 10, 101 / 10), popup = 1500\<rparr>)],
      next_marker = 2\<rparr>"



definition view_cleared :: view where
  "view_cleared =
     \<lparr>mapLoaded = True,
      map_current = Some \<lparr>camera = Fitted (20, 10) (201 / 10, 101 / 10) 50 15, attached = []\<rparr>,
      markersRef = [],
      next_marker = 2\<rparr>"

section \<open>Properties of the Store and of the hook\<close>


subsection \<open>The unique key of the table\<close>

lemma constrained_keys_upsert:
  "constrained_keys (upsert_rows e v rs) =
     (if (col_user_id v, col_match_id v) \<in> set (constrained_keys rs) then constrained_keys rs
      else constrained_keys rs @ [(col_user_id v, col_match_id v)])"
  by (induction rs) (auto simp: has_key_def update_row_def insert_row_def split: option.splits)

lemma unique_upsert:
  "unique_user_match rs \<Longrightarrow> unique_user_match (upsert_rows e v rs)"
  by (simp add: unique_user_match_def constrained_keys_upsert)

lemma constrained_keys_filter:
  "set (constrained_keys (filter P rs)) \<subseteq> set (constrained_keys rs)"
  by (induction rs) (auto split: option.splits)

lemma unique_filter:
  "unique_user_match rs \<Longrightarrow> unique_user_match (filter P rs)"
  using constrained_keys_filter [of P]
  by (induction rs) (auto simp: unique_user_match_def split: option.splits)

lemma unique_delete:
  "unique_user_match rs \<Longrightarrow> unique_user_match (delete_rows u m rs)"
  by (simp add: delete_rows_def unique_filter)

lemma has_key_constrained:
  "has_key u m r \<Longrightarrow> r \<in> set rs \<Longrightarrow> (u, m) \<in> set (constrained_keys rs)"
  by (induction rs) (auto simp: has_key_def split: option.splits)

lemma unique_at_most_one:
  "unique_user_match rs \<Longrightarrow> length (filter (has_key u m) rs) \<le> 1"
proof (induction rs)
  case Nil
  then show ?case by simp
next
  case (Cons r rs)
  show ?case
  proof (cases "has_key u m r")
    case True
    then have key: "match_id r = Some m" "user_id r = u"
      by (simp_all add: has_key_def)
    with Cons.prems have "(u, m) \<notin> set (constrained_keys rs)"
      by (simp add: unique_user_match_def)
    then have "filter (has_key u m) rs = []"
      by (auto simp: filter_empty_conv dest: has_key_constrained)
    with True show ?thesis by simp
  next
    case False
    from Cons.prems have "unique_user_match rs"
      by (auto simp: unique_user_match_def split: option.splits)
    with Cons.IH False show ?thesis by simp
  qed
qed

lemma length_upsert:
  "length (upsert_rows e v rs) =
     (if \<exists>r\<in>set rs. has_key (col_user_id v) (col_match_id v) r then length rs
      else Suc (length rs))"
  by (induction rs) auto

lemma columns_of_key:
  "columns_of v = Some cv \<Longrightarrow> col_user_id cv = val_user_id v \<and> col_match_id cv = val_match_id v"
  by (auto simp: columns_of_def split: option.splits)

text \<open>The row of the key after an upsert, and the rows of the other keys.\<close>

lemma upsert_rows_others:
  "col_user_id cv = u \<Longrightarrow> col_match_id cv = m \<Longrightarrow>
     filter (\<lambda>r. \<not> has_key u m r) (upsert_rows e cv rs) = filter (\<lambda>r. \<not> has_key u m r) rs"
  by (induction rs) (auto simp: has_key_def insert_row_def update_row_def)

lemma upsert_rows_inserted:
  "col_user_id cv = u \<Longrightarrow> col_match_id cv = m \<Longrightarrow> filter (has_key u m) rs = [] \<Longrightarrow>
     filter (has_key u m) (upsert_rows e cv rs) = [insert_row e cv]"
  by (induction rs) (auto simp: has_key_def insert_row_def split: if_splits)

lemma upsert_rows_updated:
  "unique_user_match rs \<Longrightarrow> col_user_id cv = u \<Longrightarrow> col_match_id cv = m \<Longrightarrow>
     r \<in> set rs \<Longrightarrow> has_key u m r \<Longrightarrow>
     filter (has_key u m) (upsert_rows e cv rs) = [update_row cv r]"
proof (induction rs)
  case Nil
  then show ?case by simp
next
  case (Cons a rs)
  show ?case
  proof (cases "has_key u m a")
    case True
    with Cons.prems(1) have "(u, m) \<notin> set (constrained_keys rs)"
      by (simp add: unique_user_match_def has_key_def)
    then have none: "filter (has_key u m) rs = []"
      by (auto simp: filter_empty_conv dest: has_key_constrained)
    with Cons.prems(4,5) have "r = a"
      by (auto simp: filter_empty_conv)
    have "has_key u m (update_row cv a)"
      using Cons.prems(2,3) by (simp add: has_key_def update_row_def)
    moreover have "has_key (col_user_id cv) (col_match_id cv) a"
      using True Cons.prems(2,3) by simp
    ultimately show ?thesis
      using none \<open>r = a\<close> by simp
  next
    case False
    from Cons.prems(1) have "unique_user_match rs"
      by (auto simp: unique_user_match_def split: option.splits)
    with Cons.IH Cons.prems False show ?thesis
      by auto
  qed
qed

lemma unique_updateLocation:
  "unique_user_match (store w) \<Longrightarrow> unique_user_match (store (updateLocation l e w))"
  by (auto simp: updateLocation_def Let_def upsert_def unique_upsert split: option.splits)

text \<open>
  A write of the hook that the Store carries out, by what the location object holds:
  the key has exactly one row afterwards, the row it had (same \<open>id\<close>, same
  \<open>created_at\<close>) or a new one, with the columns set from the request.
\<close>

lemma updateLocation_written:
  assumes u: "unique_user_match (store w)"
    and w: "matchId w = Some m" "auth_user w = Some u"
    and ok: "store_ok e" "columns_of (upsert_of u m l (clock e)) \<noteq> None"
  shows "\<exists>r'. filter (has_key u m) (store (updateLocation l e w)) = [r'] \<and>
           latitude r' = round_to 8 (loc_latitude l) \<and>
           longitude r' = round_to 8 (loc_longitude l) \<and>
           updated_at r' = clock e \<and>
           (\<forall>old. (filter (has_key u m) (store w) = [] \<and> old = None \<or>
                   (\<exists>r \<in> set (store w). has_key u m r \<and> old = accuracy r)) \<longrightarrow>
              accuracy r' = (case loc_accuracy l of
                               Undefined \<Rightarrow> old | Null \<Rightarrow> None | NaN \<Rightarrow> None
                             | Num x \<Rightarrow> Some (round_to 2 x))) \<and>
           (\<forall>old. (filter (has_key u m) (store w) = [] \<and> old = None \<or>
                   (\<exists>r \<in> set (store w). has_key u m r \<and> old = heading r)) \<longrightarrow>
              heading r' = (case loc_heading l of
                              Undefined \<Rightarrow> old | Null \<Rightarrow> None | NaN \<Rightarrow> None
                            | Num x \<Rightarrow> Some (round_to 2 x))) \<and>
           (\<forall>old. (filter (has_key u m) (store w) = [] \<and> old = None \<or>
                   (\<exists>r \<in> set (store w). has_key u m r \<and> old = speed r)) \<longrightarrow>
              speed r' = (case loc_speed l of
                            Undefined \<Rightarrow> old | Null \<Rightarrow> None | NaN \<Rightarrow> None
                          | Num x \<Rightarrow> Some (round_to 2 x))) \<and>
           (filter (has_key u m) (store w) = [] \<longrightarrow>
              row_id r' = gen_random_uuid e \<and> created_at r' = server_now e) \<and>
           (\<forall>r \<in> set (store w). has_key u m r \<longrightarrow>
              row_id r' = row_id r \<and> created_at r' = created_at r)"
    and "filter (\<lambda>r. \<not> has_key u m r) (store (updateLocation l e w)) =
           filter (\<lambda>r. \<not> has_key u m r) (store w)"
proof -
  let ?v = "upsert_of u m l (clock e)"
  from ok(2) obtain cv where cv: "columns_of ?v = Some cv"
    by blast
  then have key: "col_user_id cv = u" "col_match_id cv = m"
    using columns_of_key [OF cv] by (simp_all add: upsert_of_def)
  from cv have la: "col_latitude cv = round_to 8 (loc_latitude l)"
    and lo: "col_longitude cv = round_to 8 (loc_longitude l)"
    and up: "col_updated_at cv = clock e"
    by (auto simp: columns_of_def upsert_of_def decimal_def split: option.splits if_splits)
  have col: "set_column a old = (case x of Undefined \<Rightarrow> old | Null \<Rightarrow> None | NaN \<Rightarrow> None
      | Num y \<Rightarrow> Some (round_to 2 y))" if "assign p 2 x = Some a" for a old x p
    using that by (cases x) (auto simp: decimal_def split: if_splits)
  from cv have ac: "assign 10 2 (loc_accuracy l) = Some (col_accuracy cv)"
    and he: "assign 5 2 (loc_heading l) = Some (col_heading cv)"
    and sp: "assign 10 2 (loc_speed l) = Some (col_speed cv)"
    by (auto simp: columns_of_def upsert_of_def split: option.splits)
  have st: "store (updateLocation l e w) = upsert_rows e cv (store w)"
    using w ok(1) cv by (simp add: updateLocation_def Let_def upsert_def)
  show "filter (\<lambda>r. \<not> has_key u m r) (store (updateLocation l e w)) =
      filter (\<lambda>r. \<not> has_key u m r) (store w)"
    unfolding st by (rule upsert_rows_others [OF key])
  show "\<exists>r'. filter (has_key u m) (store (updateLocation l e w)) = [r'] \<and>
           latitude r' = round_to 8 (loc_latitude l) \<and>
           longitude r' = round_to 8 (loc_longitude l) \<and>
           updated_at r' = clock e \<and>
           (\<forall>old. (filter (has_key u m) (store w) = [] \<and> old = None \<or>
                   (\<exists>r \<in> set (store w). has_key u m r \<and> old = accuracy r)) \<longrightarrow>
              accuracy r' = (case loc_accuracy l of
                               Undefined \<Rightarrow> old | Null \<Rightarrow> None | NaN \<Rightarrow> None
                             | Num x \<Rightarrow> Some (round_to 2 x))) \<and>
           (\<forall>old. (filter (has_key u m) (store w) = [] \<and> old = None \<or>
                   (\<exists>r \<in> set (store w). has_key u m r \<and> old = heading r)) \<longrightarrow>
              heading r' = (case loc_heading l of
                              Undefined \<Rightarrow> old | Null \<Rightarrow> None | NaN \<Rightarrow> None
                            | Num x \<Rightarrow> Some (round_to 2 x))) \<and>
           (\<forall>old. (filter (has_key u m) (store w) = [] \<and> old = None \<or>
                   (\<exists>r \<in> set (store w). has_key u m r \<and> old = speed r)) \<longrightarrow>
              speed r' = (case loc_speed l of
                            Undefined \<Rightarrow> old | Null \<Rightarrow> None | NaN \<Rightarrow> None
                          | Num x \<Rightarrow> Some (round_to 2 x))) \<and>
           (filter (has_key u m) (store w) = [] \<longrightarrow>
              row_id r' = gen_random_uuid e \<and> created_at r' = server_now e) \<and>
           (\<forall>r \<in> set (store w). has_key u m r \<longrightarrow>
              row_id r' = row_id r \<and> created_at r' = created_at r)"
  proof (cases "filter (has_key u m) (store w) = []")
    case True
    then have none: "\<not> has_key u m r" if "r \<in> set (store w)" for r
      using that by (auto simp: filter_empty_conv)
    have "filter (has_key u m) (store (updateLocation l e w)) = [insert_row e cv]"
      unfolding st by (rule upsert_rows_inserted [OF key True])
    then show ?thesis
      using True none la lo up col [OF ac] col [OF he] col [OF sp]
      by (auto simp: insert_row_def)
  next
    case False
    then obtain r where r: "r \<in> set (store w)" "has_key u m r"
      by (auto simp: filter_empty_conv)
    have only: "r0 = r" if "r0 \<in> set (store w)" "has_key u m r0" for r0
    proof -
      have "length (filter (has_key u m) (store w)) \<le> 1"
        by (rule unique_at_most_one [OF u])
      moreover have "r \<in> set (filter (has_key u m) (store w))"
        "r0 \<in> set (filter (has_key u m) (store w))"
        using r that by simp_all
      ultimately show ?thesis
        by (cases "filter (has_key u m) (store w)") (auto simp: Suc_le_eq)
    qed
    have "filter (has_key u m) (store (updateLocation l e w)) = [update_row cv r]"
      unfolding st by (rule upsert_rows_updated [OF u key r])
    then show ?thesis
      using False only la lo up col [OF ac] col [OF he] col [OF sp]
      by (auto simp: update_row_def)
  qed
qed

lemma updateLocation_refused:
  "\<not> store_ok e \<or> matchId w = None \<or> auth_user w = None \<or>
     (\<exists>u m. matchId w = Some m \<and> auth_user w = Some u \<and>
        columns_of (upsert_of u m l (clock e)) = None) \<Longrightarrow>
   store (updateLocation l e w) = store w"
  by (auto simp: updateLocation_def Let_def upsert_def split: option.splits)

lemma unique_on_position:
  "unique_user_match (store w) \<Longrightarrow> unique_user_match (store (on_position k c e w))"
  by (simp add: on_position_def Let_def unique_updateLocation)

lemma unique_stopTracking:
  "unique_user_match (store w) \<Longrightarrow> unique_user_match (store (stopTracking e w))"
  by (simp add: stopTracking_def Let_def toast_add_def clearWatch_def unique_delete
      split: option.splits)

lemma unique_publish:
  "unique_user_match (store w) \<Longrightarrow> unique_user_match (store (publish evs w))"
  by (induction evs w rule: publish.induct) (simp_all add: unique_updateLocation)


text \<open>
  Claim C1. Whatever location events a publisher sends, and whether or not the Store
  carries each write out, a table that satisfies \<open>UNIQUE(user_id, match_id)\<close> holds at
  most one row for every pair of a participant and a session after every prefix of the
  events. A write that the Store carries out leaves exactly one row with the key of the
  publisher, and that row holds the request: its latitude and longitude (at the scale
  of the columns), its \<open>updated_at\<close>, and every optional number it carries. If the key
  had a row, this is that row, with its \<open>id\<close> and its \<open>created_at\<close>, and the table
  has as many rows as before; if it had none, it is a new row and the table has one row
  more. The rows of the other keys are the same rows in the same order. A write that the
  Store does not carry out leaves the table as it was.
\<close>

theorem updateLocation_one_sample_per_key:
  assumes "unique_user_match (store w)"
  shows "(\<forall>n u m. length (filter (has_key u m) (store (publish (take n evs) w))) \<le> 1) \<and>
         (\<forall>l e u m. matchId w = Some m \<and> auth_user w = Some u \<and> store_ok e \<and>
              columns_of (upsert_of u m l (clock e)) \<noteq> None \<longrightarrow>
            (\<exists>r'. filter (has_key u m) (store (updateLocation l e w)) = [r'] \<and>
               latitude r' = round_to 8 (loc_latitude l) \<and>
               longitude r' = round_to 8 (loc_longitude l) \<and>
               updated_at r' = clock e \<and>
               (\<forall>x. loc_accuracy l = Num x \<longrightarrow> accuracy r' = Some (round_to 2 x)) \<and>
               (\<forall>x. loc_heading l = Num x \<longrightarrow> heading r' = Some (round_to 2 x)) \<and>
               (\<forall>x. loc_speed l = Num x \<longrightarrow> speed r' = Some (round_to 2 x)) \<and>
               (filter (has_key u m) (store w) = [] \<longrightarrow>
                  row_id r' = gen_random_uuid e \<and> created_at r' = server_now e) \<and>
               (\<forall>r \<in> set (store w). has_key u m r \<longrightarrow>
                  row_id r' = row_id r \<and> created_at r' = created_at r)) \<and>
            filter (\<lambda>r. \<not> has_key u m r) (store (updateLocation l e w)) =
              filter (\<lambda>r. \<not> has_key u m r) (store w) \<and>
            length (store (updateLocation l e w)) =
              (if filter (has_key u m) (store w) = [] then Suc (length (store w))
               else length (store w))) \<and>
         (\<forall>l e u m. matchId w = Some m \<and> auth_user w = Some u \<and>
              (\<not> store_ok e \<or> columns_of (upsert_of u m l (clock e)) = None) \<longrightarrow>
            store (updateLocation l e w) = store w)"
proof -
  have prefixes: "length (filter (has_key u m) (store (publish (take n evs) w))) \<le> 1" for n u m
    using assms by (intro unique_at_most_one unique_publish)
  have refused: "store (updateLocation l e w) = store w"
    if "matchId w = Some m" "auth_user w = Some u"
      "\<not> store_ok e \<or> columns_of (upsert_of u m l (clock e)) = None" for l e u m
    using that by (intro updateLocation_refused) auto
  have written: "(\<exists>r'. filter (has_key u m) (store (updateLocation l e w)) = [r'] \<and>
               latitude r' = round_to 8 (loc_latitude l) \<and>
               longitude r' = round_to 8 (loc_longitude l) \<and>
               updated_at r' = clock e \<and>
               (\<forall>x. loc_accuracy l = Num x \<longrightarrow> accuracy r' = Some (round_to 2 x)) \<and>
               (\<forall>x. loc_heading l = Num x \<longrightarrow> heading r' = Some (round_to 2 x)) \<and>
               (\<forall>x. loc_speed l = Num x \<longrightarrow> speed r' = Some (round_to 2 x)) \<and>
               (filter (has_key u m) (store w) = [] \<longrightarrow>
                  row_id r' = gen_random_uuid e \<and> created_at r' = server_now e) \<and>
               (\<forall>r \<in> set (store w). has_key u m r \<longrightarrow>
                  row_id r' = row_id r \<and> created_at r' = created_at r)) \<and>
            filter (\<lambda>r. \<not> has_key u m r) (store (updateLocation l e w)) =
              filter (\<lambda>r. \<not> has_key u m r) (store w) \<and>
            length (store (updateLocation l e w)) =
              (if filter (has_key u m) (store w) = [] then Suc (length (store w))
               else length (store w))"
    if w: "matchId w = Some m" "auth_user w = Some u" and ok: "store_ok e"
      "columns_of (upsert_of u m l (clock e)) \<noteq> None" for l e u m
  proof -
    let ?w' = "updateLocation l e w"
    from updateLocation_written(1) [OF assms w ok]
    obtain r' where r': "filter (has_key u m) (store ?w') = [r']"
      and la: "latitude r' = round_to 8 (loc_latitude l)"
      and lo: "longitude r' = round_to 8 (loc_longitude l)"
      and up: "updated_at r' = clock e"
      and ac: "\<And>old. filter (has_key u m) (store w) = [] \<and> old = None \<or>
                   (\<exists>r \<in> set (store w). has_key u m r \<and> old = accuracy r) \<Longrightarrow>
              accuracy r' = (case loc_accuracy l of
                               Undefined \<Rightarrow> old | Null \<Rightarrow> None | NaN \<Rightarrow> None
                             | Num x \<Rightarrow> Some (round_to 2 x))"
      and he: "\<And>old. filter (has_key u m) (store w) = [] \<and> old = None \<or>
                   (\<exists>r \<in> set (store w). has_key u m r \<and> old = heading r) \<Longrightarrow>
              heading r' = (case loc_heading l of
                              Undefined \<Rightarrow> old | Null \<Rightarrow> None | NaN \<Rightarrow> None
                            | Num x \<Rightarrow> Some (round_to 2 x))"
      and sp: "\<And>old. filter (has_key u m) (store w) = [] \<and> old = None \<or>
                   (\<exists>r \<in> set (store w). has_key u m r \<and> old = speed r) \<Longrightarrow>
              speed r' = (case loc_speed l of
                            Undefined \<Rightarrow> old | Null \<Rightarrow> None | NaN \<Rightarrow> None
                          | Num x \<Rightarrow> Some (round_to 2 x))"
      and new: "filter (has_key u m) (store w) = [] \<longrightarrow>
              row_id r' = gen_random_uuid e \<and> created_at r' = server_now e"
      and old: "\<forall>r \<in> set (store w). has_key u m r \<longrightarrow>
              row_id r' = row_id r \<and> created_at r' = created_at r"
      by blast
    have some: "\<exists>old. filter (has_key u m) (store w) = [] \<and> old = None \<or>
        (\<exists>r \<in> set (store w). has_key u m r \<and> old = f r)" for f :: "live_location \<Rightarrow> real option"
      by (cases "filter (has_key u m) (store w) = []") (auto simp: filter_empty_conv)
    have acn: "accuracy r' = Some (round_to 2 x)" if "loc_accuracy l = Num x" for x
      using some [of accuracy] ac that by auto
    have hen: "heading r' = Some (round_to 2 x)" if "loc_heading l = Num x" for x
      using some [of heading] he that by auto
    have spn: "speed r' = Some (round_to 2 x)" if "loc_speed l = Num x" for x
      using some [of speed] sp that by auto
    have others: "filter (\<lambda>r. \<not> has_key u m r) (store ?w') =
        filter (\<lambda>r. \<not> has_key u m r) (store w)"
      by (rule updateLocation_written(2) [OF assms w ok])
    have "length (store ?w') =
        length (filter (has_key u m) (store ?w')) + length (filter (\<lambda>r. \<not> has_key u m r) (store ?w'))"
      by (simp add: sum_length_filter_compl)
    also have "\<dots> = Suc (length (filter (\<lambda>r. \<not> has_key u m r) (store w)))"
      by (simp add: r' others)
    finally have len': "length (store ?w') = Suc (length (filter (\<lambda>r. \<not> has_key u m r) (store w)))" .
    have split: "length (store w) =
        length (filter (has_key u m) (store w)) + length (filter (\<lambda>r. \<not> has_key u m r) (store w))"
      by (simp add: sum_length_filter_compl)
    have one: "length (filter (has_key u m) (store w)) = 1"
      if "filter (has_key u m) (store w) \<noteq> []"
      using that unique_at_most_one [OF assms, of u m]
      by (cases "filter (has_key u m) (store w)") simp_all
    have len: "length (store ?w') =
        (if filter (has_key u m) (store w) = [] then Suc (length (store w)) else length (store w))"
      using len' split one by auto
    from r' la lo up acn hen spn new old others len show ?thesis
      by blast
  qed
  from prefixes written refused show ?thesis
    by blast
qed

theorem updateLocation_one_sample_per_key_witness:
  "unique_user_match (store sample_world) \<and>
   matchId sample_world = Some 7 \<and> auth_user sample_world = Some 1 \<and> store_ok env_ok \<and>
   columns_of (upsert_of 1 7 here (clock env_ok)) \<noteq> None \<and>
   columns_of (upsert_of 1 7 there (clock env_ok)) \<noteq> None \<and>
   length (filter (has_key 1 7)
     (store (publish (take 2 [(here, env_ok), (there, env_failed), (there, env_ok)]) sample_world)))
     \<le> 1 \<and>
   store (updateLocation here env_ok sample_world) = [row_U1] \<and>
   store (updateLocation there env_failed (updateLocation here env_ok sample_world)) = [row_U1] \<and>
   store (updateLocation there env_ok (updateLocation here env_ok sample_world)) =
     [\<lparr>row_id = 100, user_id = 1, match_id = Some 7, latitude = 11, longitude = 21,
       accuracy = Some 6, heading = Some 90, speed = None, updated_at = 1000,
       created_at = 1001\<rparr>] \<and>
   store (publish [(here, env_ok), (there, env_failed), (there, env_ok)] sample_world) =
     store (updateLocation there env_ok (updateLocation here env_ok sample_world))"
  using updateLocation_one_sample_per_key
      [of sample_world "[(here, env_ok), (there, env_failed), (there, env_ok)]",
        THEN conjunct1, rule_format, of 2 1 7]
    updateLocation_one_sample_per_key
      [of sample_world "[]", THEN conjunct2, THEN conjunct1, rule_format,
        where l = here and e = env_ok and u = 1 and m = 7]
    updateLocation_one_sample_per_key
      [of "updateLocation here env_ok sample_world" "[]", THEN conjunct2, THEN conjunct2,
        rule_format, where l = there and e = env_failed and u = 1 and m = 7]
  by (simp add: sample_world_def unique_user_match_def updateLocation_def Let_def env_ok_def
      env_failed_def upsert_of_def has_key_def insert_row_def update_row_def here_def there_def
      location_of_position_def raw_position_def upsert_def columns_of_def decimal_def
      round_to_def row_U1_def)

subsection \<open>Stopping\<close>

text \<open>
  Claim C2, as the code has it. With a session identifier and an authenticated user,
  \<open>stopTracking\<close> sends one delete request for the key of the user and shows its
  notification. If the Store carries the request out, no row with that key is left (a
  row is removed, not marked) and the rows of every other key are the same rows in the
  same order. If the request fails, the result is not looked at and the table is as it
  was.
\<close>

theorem stopTracking_removes_own_row:
  assumes "matchId w = Some m" and "auth_user w = Some u"
  shows "(store_ok e \<longrightarrow>
            filter (has_key u m) (store (stopTracking e w)) = [] \<and>
            filter (\<lambda>r. \<not> has_key u m r) (store (stopTracking e w)) =
              filter (\<lambda>r. \<not> has_key u m r) (store w)) \<and>
         (\<not> store_ok e \<longrightarrow> store (stopTracking e w) = store w) \<and>
         requests (stopTracking e w) = requests w @ [Delete u m] \<and>
         toasts (stopTracking e w) = toasts w @ [stopped_toast]"
  using assms
  by (auto simp: stopTracking_def Let_def toast_add_def clearWatch_def delete_rows_def
      split: option.splits)

theorem stopTracking_removes_own_row_witness:
  "matchId two_rows = Some 7 \<and> auth_user two_rows = Some 1 \<and>
   store_ok env_ok \<and> \<not> store_ok env_failed \<and>
   store (stopTracking env_ok two_rows) = [row_U2] \<and>
   store (stopTracking env_failed two_rows) = [row_U1, row_U2]"
  using stopTracking_removes_own_row [of two_rows 7 1 env_ok]
    stopTracking_removes_own_row [of two_rows 7 1 env_failed]
  by (simp add: two_rows_def sample_world_def env_ok_def env_failed_def stopTracking_def Let_def
      toast_add_def delete_rows_def has_key_def row_U1_def row_U2_def initial_state_def)

text \<open>
  Claim C2 as stated fails when the delete request fails: \<open>stopTracking\<close> completes with
  its notification, and the row of participant \<open>1\<close> in session \<open>7\<close> is still there.
\<close>

theorem stopTracking_failed_delete_counterexample:
  "matchId two_rows = Some 7 \<and> auth_user two_rows = Some 1 \<and>
   toasts (stopTracking env_failed two_rows) = [stopped_toast] \<and>
   filter (has_key 1 7) (store (stopTracking env_failed two_rows)) = [row_U1]"
  by (simp add: two_rows_def sample_world_def env_failed_def stopTracking_def Let_def
      toast_add_def has_key_def row_U1_def row_U2_def initial_state_def)

subsection \<open>Starting without the capability\<close>

text \<open>
  Claim C3. Without \<open>navigator.geolocation\<close>, \<open>startTracking\<close> shows the destructive
  notification and does nothing else: no watch is registered and no identifier is
  used up, the state variables are as they were (so a tracking flag that is false
  stays false, also after the next render), nothing is sent to the Store, and a
  position event of a watch that is not registered changes nothing.
\<close>

theorem startTracking_capability_unavailable:
  assumes "\<not> geolocation w"
  shows "toasts (startTracking w) = toasts w @ [capability_toast] \<and>
         variant capability_toast = Destructive \<and>
         watches (startTracking w) = watches w \<and>
         next_watch (startTracking w) = next_watch w \<and>
         pending (startTracking w) = pending w \<and>
         rendered (startTracking w) = rendered w \<and>
         isTracking (rendered (render (startTracking w))) = isTracking (pending w) \<and>
         store (startTracking w) = store w \<and>
         requests (startTracking w) = requests w \<and>
         (\<forall>k c e. k \<notin> set (watches w) \<longrightarrow>
            on_position k c e (startTracking w) = startTracking w)"
  using assms
  by (simp add: startTracking_def toast_add_def capability_toast_def render_def watch_cleanup_def
      clearWatch_def on_position_def Let_def split: option.splits)

theorem startTracking_capability_unavailable_witness:
  "\<not> geolocation (sample_world\<lparr>geolocation := False\<rparr>) \<and>
   toasts (startTracking (sample_world\<lparr>geolocation := False\<rparr>)) = [capability_toast] \<and>
   watches (startTracking (sample_world\<lparr>geolocation := False\<rparr>)) = [] \<and>
   isTracking (pending (startTracking (sample_world\<lparr>geolocation := False\<rparr>))) = False \<and>
   isTracking (rendered (render (startTracking (sample_world\<lparr>geolocation := False\<rparr>)))) = False \<and>
   requests (startTracking (sample_world\<lparr>geolocation := False\<rparr>)) = [] \<and>
   store (on_position 1 raw_position env_ok (startTracking (sample_world\<lparr>geolocation := False\<rparr>)))
     = []"
  using startTracking_capability_unavailable [of "sample_world\<lparr>geolocation := False\<rparr>"]
  by (simp add: sample_world_def initial_state_def)

subsection \<open>From the device event to the written sample\<close>

text \<open>
  Claim C4, as the code has it. The object built from a device event and the values
  handed to \<open>upsert\<close> carry the latitude and the longitude of the event unchanged; they
  carry its accuracy as it is, and its heading and its speed as they are unless the
  event has none (missing or \<open>null\<close>): then the property is \<open>undefined\<close>, never a
  number. In the row that a write leaves in the table, latitude and longitude are those
  of the event at the scale of their columns, 8 decimals, and an optional column holds
  the number of the event at 2 decimals when the event has one and NULL when the event
  has \<open>NaN\<close>. For a heading or a speed that the event does not have (and an accuracy
  that is missing), the column is NULL in a row that the write inserts; in a row that
  was there before, the column keeps the value it had.
\<close>

theorem location_of_position_maps_fields:
  "loc_latitude (location_of_position c) = coords_latitude c \<and>
         loc_longitude (location_of_position c) = coords_longitude c \<and>
         loc_accuracy (location_of_position c) = coords_accuracy c \<and>
         loc_heading (location_of_position c) =
           (if absent (coords_heading c) then Undefined else coords_heading c) \<and>
         loc_speed (location_of_position c) =
           (if absent (coords_speed c) then Undefined else coords_speed c) \<and>
         val_latitude (upsert_of u m (location_of_position c) t) = coords_latitude c \<and>
         val_longitude (upsert_of u m (location_of_position c) t) = coords_longitude c \<and>
         val_accuracy (upsert_of u m (location_of_position c) t) = coords_accuracy c \<and>
         val_heading (upsert_of u m (location_of_position c) t) =
           (if absent (coords_heading c) then Undefined else coords_heading c) \<and>
         val_speed (upsert_of u m (location_of_position c) t) =
           (if absent (coords_speed c) then Undefined else coords_speed c) \<and>
         (unique_user_match (store w) \<and> matchId w = Some m \<and> auth_user w = Some u \<and>
          store_ok e \<and>
          columns_of (upsert_of u m (location_of_position c) (clock e)) \<noteq> None \<longrightarrow>
          (\<exists>r'. filter (has_key u m) (store (updateLocation (location_of_position c) e w)) = [r'] \<and>
            latitude r' = round_to 8 (coords_latitude c) \<and>
            longitude r' = round_to 8 (coords_longitude c) \<and>
            (\<forall>x. coords_accuracy c = Num x \<longrightarrow> accuracy r' = Some (round_to 2 x)) \<and>
            (\<forall>x. coords_heading c = Num x \<longrightarrow> heading r' = Some (round_to 2 x)) \<and>
            (\<forall>x. coords_speed c = Num x \<longrightarrow> speed r' = Some (round_to 2 x)) \<and>
            (coords_accuracy c = NaN \<or> coords_accuracy c = Null \<longrightarrow> accuracy r' = None) \<and>
            (coords_heading c = NaN \<longrightarrow> heading r' = None) \<and>
            (coords_speed c = NaN \<longrightarrow> speed r' = None) \<and>
            (filter (has_key u m) (store w) = [] \<longrightarrow>
               (coords_accuracy c = Undefined \<longrightarrow> accuracy r' = None) \<and>
               (absent (coords_heading c) \<longrightarrow> heading r' = None) \<and>
               (absent (coords_speed c) \<longrightarrow> speed r' = None)) \<and>
            (\<forall>r \<in> set (store w). has_key u m r \<longrightarrow>
               (coords_accuracy c = Undefined \<longrightarrow> accuracy r' = accuracy r) \<and>
               (absent (coords_heading c) \<longrightarrow> heading r' = heading r) \<and>
               (absent (coords_speed c) \<longrightarrow> speed r' = speed r))))"
proof -
  let ?l = "location_of_position c"
  let ?w' = "updateLocation ?l e w"
  have nu: "nullish_undefined x = (if absent x then Undefined else x)" for x
    by (cases x) simp_all
  have payload: "loc_latitude ?l = coords_latitude c" "loc_longitude ?l = coords_longitude c"
    "loc_accuracy ?l = coords_accuracy c"
    "loc_heading ?l = (if absent (coords_heading c) then Undefined else coords_heading c)"
    "loc_speed ?l = (if absent (coords_speed c) then Undefined else coords_speed c)"
    by (simp_all add: location_of_position_def nu)
  have request: "val_latitude (upsert_of u m ?l t) = coords_latitude c"
    "val_longitude (upsert_of u m ?l t) = coords_longitude c"
    "val_accuracy (upsert_of u m ?l t) = coords_accuracy c"
    "val_heading (upsert_of u m ?l t) =
       (if absent (coords_heading c) then Undefined else coords_heading c)"
    "val_speed (upsert_of u m ?l t) =
       (if absent (coords_speed c) then Undefined else coords_speed c)"
    by (simp_all add: upsert_of_def payload)
  have row: "\<exists>r'. filter (has_key u m) (store ?w') = [r'] \<and>
            latitude r' = round_to 8 (coords_latitude c) \<and>
            longitude r' = round_to 8 (coords_longitude c) \<and>
            (\<forall>x. coords_accuracy c = Num x \<longrightarrow> accuracy r' = Some (round_to 2 x)) \<and>
            (\<forall>x. coords_heading c = Num x \<longrightarrow> heading r' = Some (round_to 2 x)) \<and>
            (\<forall>x. coords_speed c = Num x \<longrightarrow> speed r' = Some (round_to 2 x)) \<and>
            (coords_accuracy c = NaN \<or> coords_accuracy c = Null \<longrightarrow> accuracy r' = None) \<and>
            (coords_heading c = NaN \<longrightarrow> heading r' = None) \<and>
            (coords_speed c = NaN \<longrightarrow> speed r' = None) \<and>
            (filter (has_key u m) (store w) = [] \<longrightarrow>
               (coords_accuracy c = Undefined \<longrightarrow> accuracy r' = None) \<and>
               (absent (coords_heading c) \<longrightarrow> heading r' = None) \<and>
               (absent (coords_speed c) \<longrightarrow> speed r' = None)) \<and>
            (\<forall>r \<in> set (store w). has_key u m r \<longrightarrow>
               (coords_accuracy c = Undefined \<longrightarrow> accuracy r' = accuracy r) \<and>
               (absent (coords_heading c) \<longrightarrow> heading r' = heading r) \<and>
               (absent (coords_speed c) \<longrightarrow> speed r' = speed r))"
    if written: "unique_user_match (store w) \<and> matchId w = Some m \<and> auth_user w = Some u \<and>
      store_ok e \<and> columns_of (upsert_of u m ?l (clock e)) \<noteq> None"
  proof -
    from written have assms: "unique_user_match (store w)" "matchId w = Some m"
      "auth_user w = Some u" "store_ok e"
      "columns_of (upsert_of u m ?l (clock e)) \<noteq> None"
      by simp_all
    from updateLocation_written(1) [OF assms]
    obtain r' where r': "filter (has_key u m) (store ?w') = [r']"
      and la: "latitude r' = round_to 8 (loc_latitude ?l)"
      and lo: "longitude r' = round_to 8 (loc_longitude ?l)"
      and ac: "\<And>old. filter (has_key u m) (store w) = [] \<and> old = None \<or>
                   (\<exists>r \<in> set (store w). has_key u m r \<and> old = accuracy r) \<Longrightarrow>
              accuracy r' = (case loc_accuracy ?l of
                               Undefined \<Rightarrow> old | Null \<Rightarrow> None | NaN \<Rightarrow> None
                             | Num x \<Rightarrow> Some (round_to 2 x))"
      and he: "\<And>old. filter (has_key u m) (store w) = [] \<and> old = None \<or>
                   (\<exists>r \<in> set (store w). has_key u m r \<and> old = heading r) \<Longrightarrow>
              heading r' = (case loc_heading ?l of
                              Undefined \<Rightarrow> old | Null \<Rightarrow> None | NaN \<Rightarrow> None
                            | Num x \<Rightarrow> Some (round_to 2 x))"
      and sp: "\<And>old. filter (has_key u m) (store w) = [] \<and> old = None \<or>
                   (\<exists>r \<in> set (store w). has_key u m r \<and> old = speed r) \<Longrightarrow>
              speed r' = (case loc_speed ?l of
                            Undefined \<Rightarrow> old | Null \<Rightarrow> None | NaN \<Rightarrow> None
                          | Num x \<Rightarrow> Some (round_to 2 x))"
      by blast
    have some: "\<exists>old. filter (has_key u m) (store w) = [] \<and> old = None \<or>
        (\<exists>r \<in> set (store w). has_key u m r \<and> old = f r)" for f :: "live_location \<Rightarrow> real option"
      by (cases "filter (has_key u m) (store w) = []") (auto simp: filter_empty_conv)
    from some [of accuracy] obtain oa where "filter (has_key u m) (store w) = [] \<and> oa = None \<or>
        (\<exists>r \<in> set (store w). has_key u m r \<and> oa = accuracy r)"
      by blast
    note ac' = ac [OF this]
    from some [of heading] obtain oh where "filter (has_key u m) (store w) = [] \<and> oh = None \<or>
        (\<exists>r \<in> set (store w). has_key u m r \<and> oh = heading r)"
      by blast
    note he' = he [OF this]
    from some [of speed] obtain os where "filter (has_key u m) (store w) = [] \<and> os = None \<or>
        (\<exists>r \<in> set (store w). has_key u m r \<and> os = speed r)"
      by blast
    note sp' = sp [OF this]
    have acn: "accuracy r' = Some (round_to 2 x)" if "coords_accuracy c = Num x" for x
      using ac' that by (simp add: payload)
    have hen: "heading r' = Some (round_to 2 x)" if "coords_heading c = Num x" for x
      using he' that by (simp add: payload)
    have spn: "speed r' = Some (round_to 2 x)" if "coords_speed c = Num x" for x
      using sp' that by (simp add: payload)
    have acz: "accuracy r' = None" if "coords_accuracy c = NaN \<or> coords_accuracy c = Null"
      using ac' that by (auto simp: payload)
    have hez: "heading r' = None" if "coords_heading c = NaN"
      using he' that by (simp add: payload)
    have spz: "speed r' = None" if "coords_speed c = NaN"
      using sp' that by (simp add: payload)
    have ins: "(coords_accuracy c = Undefined \<longrightarrow> accuracy r' = None) \<and>
        (absent (coords_heading c) \<longrightarrow> heading r' = None) \<and>
        (absent (coords_speed c) \<longrightarrow> speed r' = None)"
      if "filter (has_key u m) (store w) = []"
      using ac [of None] he [of None] sp [of None] that by (simp add: payload)
    have upd: "(coords_accuracy c = Undefined \<longrightarrow> accuracy r' = accuracy r) \<and>
        (absent (coords_heading c) \<longrightarrow> heading r' = heading r) \<and>
        (absent (coords_speed c) \<longrightarrow> speed r' = speed r)"
      if "r \<in> set (store w)" "has_key u m r" for r
    proof -
      have "accuracy r' = (case loc_accuracy ?l of
          Undefined \<Rightarrow> accuracy r | Null \<Rightarrow> None | NaN \<Rightarrow> None | Num x \<Rightarrow> Some (round_to 2 x))"
        using that by (intro ac) blast
      moreover have "heading r' = (case loc_heading ?l of
          Undefined \<Rightarrow> heading r | Null \<Rightarrow> None | NaN \<Rightarrow> None | Num x \<Rightarrow> Some (round_to 2 x))"
        using that by (intro he) blast
      moreover have "speed r' = (case loc_speed ?l of
          Undefined \<Rightarrow> speed r | Null \<Rightarrow> None | NaN \<Rightarrow> None | Num x \<Rightarrow> Some (round_to 2 x))"
        using that by (intro sp) blast
      ultimately show ?thesis
        by (simp add: payload)
    qed
    show ?thesis
      using r' la lo acn hen spn acz hez spz ins upd unfolding payload
      by blast
  qed
  from payload request row show ?thesis
    by blast
qed

theorem location_of_position_maps_fields_witness:
  "unique_user_match (store sample_world) \<and>
   matchId sample_world = Some 7 \<and> auth_user sample_world = Some 1 \<and> store_ok env_ok \<and>
   columns_of (upsert_of 1 7 (location_of_position raw_position) (clock env_ok)) \<noteq> None \<and>
   location_of_position raw_position =
     \<lparr>loc_latitude = 10, loc_longitude = 20, loc_accuracy = Num 5, loc_heading = Undefined,
      loc_speed = Undefined\<rparr> \<and>
   store (updateLocation (location_of_position raw_position) env_ok sample_world) =
     [\<lparr>row_id = 100, user_id = 1, match_id = Some 7, latitude = 10, longitude = 20,
       accuracy = Some 5, heading = None, speed = None, updated_at = 1000,
       created_at = 1001\<rparr>] \<and>
   unique_user_match
     (store (updateLocation (location_of_position raw_moving) env_ok sample_world)) \<and>
   store (updateLocation (location_of_position raw_position) env_ok
       (updateLocation (location_of_position raw_moving) env_ok sample_world)) =
     [\<lparr>row_id = 100, user_id = 1, match_id = Some 7, latitude = 10, longitude = 20,
       accuracy = Some 5, heading = Some 90, speed = Some 3, updated_at = 1000,
       created_at = 1001\<rparr>]"
  using location_of_position_maps_fields
      [where c = raw_position and u = 1 and m = 7 and t = 1000 and e = env_ok and
        w = sample_world]
    location_of_position_maps_fields
      [where c = raw_position and u = 1 and m = 7 and t = 1000 and e = env_ok and
        w = "updateLocation (location_of_position raw_moving) env_ok sample_world"]
  by (simp add: sample_world_def unique_user_match_def updateLocation_def Let_def env_ok_def
      upsert_of_def has_key_def insert_row_def update_row_def location_of_position_def
      raw_position_def raw_moving_def upsert_def columns_of_def decimal_def round_to_def)

text \<open>
  Claim C4 as stated fails for the row that is written. A publisher whose row holds
  the heading \<open>90\<close> and the speed \<open>3\<close> of the last event sends an event without
  heading and speed: the request leaves the two properties out, and the row keeps the
  numbers of the event before. And the latitude \<open>10.123456789\<close> of an event is
  stored as \<open>10.12345679\<close>.
\<close>

theorem stale_heading_counterexample:
  "coords_latitude raw_moving = 10123456789 / 10 ^ 9 \<and>
   map latitude (store (updateLocation (location_of_position raw_moving) env_ok sample_world)) =
     [1012345679 / 10 ^ 8] \<and>
   map heading (store (updateLocation (location_of_position raw_moving) env_ok sample_world)) =
     [Some 90] \<and>
   coords_heading raw_position = Null \<and> coords_speed raw_position = Undefined \<and>
   val_heading (upsert_of 1 7 (location_of_position raw_position) 1000) = Undefined \<and>
   map heading (store (updateLocation (location_of_position raw_position) env_ok
       (updateLocation (location_of_position raw_moving) env_ok sample_world))) = [Some 90] \<and>
   map speed (store (updateLocation (location_of_position raw_position) env_ok
       (updateLocation (location_of_position raw_moving) env_ok sample_world))) = [Some 3]"
  by (simp add: sample_world_def updateLocation_def Let_def env_ok_def
      upsert_of_def has_key_def insert_row_def update_row_def location_of_position_def
      raw_position_def raw_moving_def upsert_def columns_of_def decimal_def round_to_def)

subsection \<open>Read errors\<close>

text \<open>
  Claim C8, as the code has it. The initial fetch of the session effect and the refetch
  on a notification are the same function, which reports nothing: when the read fails,
  no notification is shown and nothing is logged on either path, and the state
  variables, the tracked users among them, are as they were.
\<close>

theorem failed_fetch_is_silent:
  assumes "\<not> store_ok e"
  shows "toasts (session_effect e w) = toasts w \<and> console (session_effect e w) = console w \<and>
         pending (session_effect e w) = pending w \<and> rendered (session_effect e w) = rendered w \<and>
         toasts (on_notification m e w) = toasts w \<and> console (on_notification m e w) = console w \<and>
         pending (on_notification m e w) = pending w \<and> rendered (on_notification m e w) = rendered w"
  using assms
  by (simp add: session_effect_def on_notification_def fetchLocations_def Let_def
      split: option.splits)

theorem failed_fetch_is_silent_witness:
  "\<not> store_ok env_failed \<and>
   toasts (session_effect env_failed two_rows) = [] \<and>
   trackedUsers (pending (session_effect env_failed two_rows)) = [] \<and>
   toasts (on_notification 7 env_failed (session_effect env_ok two_rows)) = [] \<and>
   trackedUsers (pending (on_notification 7 env_failed (session_effect env_ok two_rows))) =
     [row_U1, row_U2]"
  using failed_fetch_is_silent [of env_failed two_rows 7]
    failed_fetch_is_silent [of env_failed "session_effect env_ok two_rows" 7]
  by (simp add: two_rows_def sample_world_def env_failed_def env_ok_def session_effect_def
      fetchLocations_def Let_def initial_state_def select_rows_def row_U1_def row_U2_def)

text \<open>
  Claim C8 as stated fails on the initial fetch: the read of session \<open>7\<close> is sent and
  fails, and the user is shown nothing.
\<close>

theorem initial_fetch_error_counterexample:
  "matchId sample_world = Some 7 \<and> \<not> store_ok env_failed \<and>
   requests (session_effect env_failed sample_world) = [Select 7] \<and>
   toasts (session_effect env_failed sample_world) = [] \<and>
   console (session_effect env_failed sample_world) = []"
  by (simp add: sample_world_def env_failed_def session_effect_def fetchLocations_def Let_def)

subsection \<open>Starting again while a watch is active\<close>

lemma world_ok_sample: "world_ok sample_world"
  by (simp add: world_ok_def sample_world_def initial_state_def)

lemma world_ok_startTracking: "world_ok w \<Longrightarrow> world_ok (startTracking w)"
  by (auto simp: world_ok_def startTracking_def toast_add_def Let_def list_all_iff less_Suc_eq
      split: option.splits)

lemma world_ok_render: "world_ok w \<Longrightarrow> world_ok (render w)"
  by (auto simp: world_ok_def render_def watch_cleanup_def clearWatch_def Let_def list_all_iff
      split: option.splits)

lemma world_ok_stopTracking: "world_ok w \<Longrightarrow> world_ok (stopTracking e w)"
  by (auto simp: world_ok_def stopTracking_def toast_add_def clearWatch_def Let_def list_all_iff
      split: option.splits)

lemma watches_stopTracking:
  "watches (stopTracking e w) =
     (case watchId (rendered w) of None \<Rightarrow> watches w | Some k \<Rightarrow> removeAll k (watches w))"
  by (simp add: stopTracking_def toast_add_def clearWatch_def Let_def split: option.splits)

lemma watches_unmount:
  "watches (unmount w) =
     (case watchId (rendered w) of None \<Rightarrow> watches w | Some k \<Rightarrow> removeAll k (watches w))"
  by (simp add: unmount_def session_cleanup_def watch_cleanup_def clearWatch_def
      split: option.splits)

lemma watches_render:
  "watches (render w) =
     (if watchId (pending w) = watchId (rendered w) then watches w
      else case watchId (rendered w) of None \<Rightarrow> watches w | Some k \<Rightarrow> removeAll k (watches w))"
  by (simp add: render_def watch_cleanup_def clearWatch_def Let_def split: option.splits)

lemma rendered_render: "rendered (render w) = pending w"
  by (simp add: render_def watch_cleanup_def clearWatch_def Let_def split: option.splits)

lemma startTracking_available:
  "geolocation w \<Longrightarrow>
     watches (startTracking w) = watches w @ [next_watch w] \<and>
     next_watch (startTracking w) = Suc (next_watch w) \<and>
     pending (startTracking w) = (pending w)\<lparr>watchId := Some (next_watch w), isTracking := True\<rparr> \<and>
     rendered (startTracking w) = rendered w \<and>
     geolocation (startTracking w)"
  by (simp add: startTracking_def toast_add_def Let_def)

text \<open>
  Claim C10, as the code has it. \<open>startTracking\<close> registers a new watch, cancels none
  and overwrites the pending watch identifier. When the render before it showed an
  active watch \<open>k\<close>, the next render runs the cleanup of the effect on \<open>watchId\<close> that
  the earlier render created, which clears \<open>k\<close>; a following \<open>stopTracking\<close> or unmount
  clears the new watch, and no watch of the hook is left. Only when two calls of
  \<open>startTracking\<close> run within one render, the first identifier is never rendered, and
  after \<open>stopTracking\<close> or unmount the first watch is still active.
\<close>

theorem restart_cancels_at_render:
  assumes ok: "world_ok w" and geo: "geolocation w"
  shows "watches (startTracking w) = watches w @ [next_watch w] \<and>
         watchId (pending (startTracking w)) = Some (next_watch w) \<and>
         watchId (rendered (startTracking w)) = watchId (rendered w) \<and>
         (\<forall>k. watchId (rendered w) = Some k \<longrightarrow>
            watches (render (startTracking w)) = removeAll k (watches w) @ [next_watch w] \<and>
            watches (stopTracking e (render (startTracking w))) = removeAll k (watches w) \<and>
            watches (unmount (render (startTracking w))) = removeAll k (watches w)) \<and>
         (watchId (rendered w) = None \<longrightarrow>
            watches (render (startTracking (startTracking w))) =
              watches w @ [next_watch w, Suc (next_watch w)] \<and>
            watches (stopTracking e (render (startTracking (startTracking w)))) =
              watches w @ [next_watch w] \<and>
            watches (unmount (render (startTracking (startTracking w)))) =
              watches w @ [next_watch w])"
proof -
  let ?n = "next_watch w"
  let ?s = "startTracking w"
  from ok have fresh: "?n \<notin> set (watches w)" "Suc ?n \<notin> set (watches w)"
    by (auto simp: world_ok_def list_all_iff)
  note s = startTracking_available [OF geo]
  have s2: "watches (startTracking ?s) = watches w @ [?n, Suc ?n]"
    "watchId (pending (startTracking ?s)) = Some (Suc ?n)"
    "watchId (rendered (startTracking ?s)) = watchId (rendered w)"
    using startTracking_available [of ?s] s by simp_all
  have active: "watches (render ?s) = removeAll k (watches w) @ [?n] \<and>
      watches (stopTracking e (render ?s)) = removeAll k (watches w) \<and>
      watches (unmount (render ?s)) = removeAll k (watches w)"
    if k: "watchId (rendered w) = Some k" for k
  proof -
    from ok k have "k \<noteq> ?n" by (auto simp: world_ok_def)
    with k s have r: "watches (render ?s) = removeAll k (watches w) @ [?n]"
      "watchId (rendered (render ?s)) = Some ?n"
      by (simp_all add: watches_render rendered_render)
    with fresh(1) show ?thesis
      by (simp add: watches_stopTracking watches_unmount)
  qed
  have idle: "watches (render (startTracking ?s)) = watches w @ [?n, Suc ?n] \<and>
      watches (stopTracking e (render (startTracking ?s))) = watches w @ [?n] \<and>
      watches (unmount (render (startTracking ?s))) = watches w @ [?n]"
    if none: "watchId (rendered w) = None"
  proof -
    from none s2 have r: "watches (render (startTracking ?s)) = watches w @ [?n, Suc ?n]"
      "watchId (rendered (render (startTracking ?s))) = Some (Suc ?n)"
      by (simp_all add: watches_render rendered_render)
    with fresh(2) show ?thesis
      by (simp add: watches_stopTracking watches_unmount)
  qed
  from s active idle show ?thesis by simp
qed

theorem restart_cancels_at_render_witness:
  "world_ok (render (startTracking sample_world)) \<and>
   geolocation (render (startTracking sample_world)) \<and>
   watchId (rendered (render (startTracking sample_world))) = Some 1 \<and>
   watches (startTracking (render (startTracking sample_world))) = [1, 2] \<and>
   watches (render (startTracking (render (startTracking sample_world)))) = [2] \<and>
   watches (stopTracking env_ok (render (startTracking (render (startTracking sample_world))))) = [] \<and>
   world_ok sample_world \<and> geolocation sample_world \<and>
   watchId (rendered sample_world) = None \<and>
   watches (stopTracking env_ok (render (startTracking (startTracking sample_world)))) = [1]"
proof -
  let ?w = "render (startTracking sample_world)"
  have w: "watches ?w = [1]" "next_watch ?w = 2" "watchId (rendered ?w) = Some 1"
    "geolocation ?w"
    by (simp_all add: sample_world_def initial_state_def startTracking_def toast_add_def Let_def
        render_def watch_cleanup_def)
  have ok: "world_ok ?w"
    by (intro world_ok_render world_ok_startTracking world_ok_sample)
  have s: "watches sample_world = []" "next_watch sample_world = 1"
    "watchId (rendered sample_world) = None" "geolocation sample_world"
    by (simp_all add: sample_world_def initial_state_def)
  from restart_cancels_at_render [OF ok w(4), of env_ok] w(1,2,3)
    restart_cancels_at_render [OF world_ok_sample s(4), of env_ok] s(1,2,3)
  show ?thesis
    using ok w(4) world_ok_sample s(4) by simp
qed

text \<open>
  Claim C10 as stated fails: the hook starts watch \<open>1\<close>, renders, starts watch \<open>2\<close>
  with no stop in between and renders again. The second render has cleared watch \<open>1\<close>,
  and after \<open>stopTracking\<close> or unmount no watch is active.
\<close>

theorem restart_leak_counterexample:
  "watchId (rendered (render (startTracking sample_world))) = Some 1 \<and>
   watches (render (startTracking sample_world)) = [1] \<and>
   watches (startTracking (render (startTracking sample_world))) = [1, 2] \<and>
   watches (render (startTracking (render (startTracking sample_world)))) = [2] \<and>
   watches (stopTracking env_ok (render (startTracking (render (startTracking sample_world))))) = [] \<and>
   watches (unmount (render (startTracking (render (startTracking sample_world))))) = []"
  by (simp add: sample_world_def initial_state_def startTracking_def toast_add_def Let_def
      render_def watch_cleanup_def clearWatch_def stopTracking_def unmount_def session_cleanup_def)

section \<open>Properties of the marker effect\<close>

lemmas view_eval = reconcile_def drop_stale_def place_user_def placed_def thrown_def
  LngLat_convert_def drop_marker_def addTo_def remove_marker_def bounds_of_def fitBounds_def
  Let_def

lemma find_user_None: "(find (\<lambda>u. user_id u = k) us = None) = (k \<notin> user_id ` set us)"
  by (auto simp: find_None_iff)

subsection \<open>Placing the tracked users\<close>

lemma placed_mapLoaded [simp]: "mapLoaded (placed u v) = mapLoaded v"
  by (simp add: placed_def addTo_def Let_def split: option.splits)



lemma placed_map_current:
  "map_current (placed u v) =
     map_option (\<lambda>mb. mb\<lparr>attached := attached mb @
        (if map_of (markersRef v) (user_id u) = None then [next_marker v] else [])\<rparr>) (map_current v)"
  by (cases "map_current v") (simp_all add: placed_def addTo_def Let_def split: option.splits)


lemma placed_all_Nil [simp]: "placed_all [] v = v"
  by (simp add: placed_all_def)

lemma placed_all_Cons [simp]: "placed_all (u # us) v = placed_all us (placed u v)"
  by (simp add: placed_all_def)

lemma placed_all_mapLoaded [simp]: "mapLoaded (placed_all us v) = mapLoaded v"
  by (induction us arbitrary: v) simp_all



lemma placed_all_map_None [simp]:
  "(map_current (placed_all us v) = None) = (map_current v = None)"
  by (induction us arbitrary: v) (simp_all add: placed_map_current)

lemma placed_all_camera:
  "map_option camera (map_current (placed_all us v)) = map_option camera (map_current v)"
  by (induction us arbitrary: v) (simp_all add: placed_map_current option.map_comp comp_def)




subsection \<open>Dropping the markers of the others\<close>

lemma drop_marker_mapLoaded [simp]: "mapLoaded (drop_marker us k v) = mapLoaded v"
  by (simp add: drop_marker_def remove_marker_def split: option.splits)

lemma drop_marker_next [simp]: "next_marker (drop_marker us k v) = next_marker v"
  by (simp add: drop_marker_def remove_marker_def split: option.splits)


lemma drop_marker_keys:
  "fst ` set (markersRef (drop_marker us k v)) =
     (if k \<in> user_id ` set us then fst ` set (markersRef v) else fst ` set (markersRef v) - {k})"
  by (auto simp: drop_marker_def find_user_None remove_marker_def AList.delete_keys map_of_eq_None_iff
      simp flip: set_map split: option.splits)


lemma fold_drop_marker_mapLoaded [simp]: "mapLoaded (fold (drop_marker us) ks v) = mapLoaded v"
  by (induction ks arbitrary: v) simp_all

lemma fold_drop_marker_next [simp]: "next_marker (fold (drop_marker us) ks v) = next_marker v"
  by (induction ks arbitrary: v) simp_all


lemma fold_drop_marker_keys:
  "fst ` set (markersRef (fold (drop_marker us) ks v)) =
     fst ` set (markersRef v) - {k \<in> set ks. k \<notin> user_id ` set us}"
  by (induction ks arbitrary: v) (auto simp: drop_marker_keys)


lemma drop_stale_mapLoaded [simp]: "mapLoaded (drop_stale us v) = mapLoaded v"
  by (simp add: drop_stale_def)

lemma drop_stale_next [simp]: "next_marker (drop_stale us v) = next_marker v"
  by (simp add: drop_stale_def)

lemma drop_stale_keys:
  "fst ` set (markersRef (drop_stale us v)) = fst ` set (markersRef v) \<inter> user_id ` set us"
  by (auto simp: drop_stale_def fold_drop_marker_keys)



lemma drop_marker_map_None [simp]:
  "(map_current (drop_marker us k v) = None) = (map_current v = None)"
  by (simp add: drop_marker_def remove_marker_def split: option.splits)

lemma drop_marker_camera:
  "map_option camera (map_current (drop_marker us k v)) = map_option camera (map_current v)"
  by (simp add: drop_marker_def remove_marker_def option.map_comp comp_def split: option.splits)

lemma drop_stale_map_None [simp]:
  "(map_current (drop_stale us v) = None) = (map_current v = None)"
proof -
  have "(map_current (fold (drop_marker us) ks v) = None) = (map_current v = None)" for ks
    by (induction ks arbitrary: v) simp_all
  then show ?thesis by (simp add: drop_stale_def)
qed

lemma drop_stale_camera:
  "map_option camera (map_current (drop_stale us v)) = map_option camera (map_current v)"
proof -
  have "map_option camera (map_current (fold (drop_marker us) ks v)) =
        map_option camera (map_current v)" for ks
    by (induction ks arbitrary: v) (simp_all add: drop_marker_camera)
  then show ?thesis by (simp add: drop_stale_def)
qed

subsection \<open>Bounds and the result of a run\<close>

lemma extend_Some: "extend p (Some b) \<noteq> None"
  by (cases p; cases b; cases "fst b"; cases "snd b") auto

lemma fold_extend_Some:
  "b \<noteq> None \<Longrightarrow> fold (\<lambda>u b. extend (longitude u, latitude u) b) us b \<noteq> None"
  by (induction us arbitrary: b) (auto simp: extend_Some)

lemma bounds_of_Some: "us \<noteq> [] \<Longrightarrow> bounds_of us \<noteq> None"
  by (cases us) (simp_all add: bounds_of_def fold_extend_Some)

text \<open>A position passes the conversion exactly when its latitude is in range.\<close>

lemma LngLat_convert_in_range:
  "LngLat_convert (longitude u, latitude u) =
     (if in_range u then Inr (longitude u, latitude u) else Inl InvalidLngLat)"
  by (auto simp: LngLat_convert_def in_range_def)

lemma place_user_in_range:
  "place_user u v = (if in_range u then Inr (placed u v) else Inl (InvalidLngLat, thrown u v))"
  by (simp add: place_user_def LngLat_convert_in_range)

lemma place_all_in_range:
  "list_all in_range us \<Longrightarrow> place_all us v = Inr (placed_all us v)"
  by (induction us arbitrary: v) (simp_all add: place_user_in_range)

text \<open>
  The loop over the tracked users ends at the first row that is out of range: the rows
  before it are placed, and the rows after it are not looked at.
\<close>

lemma place_all_thrown:
  "\<not> list_all in_range us \<Longrightarrow>
     place_all us v =
       Inl (InvalidLngLat, thrown (hd (dropWhile in_range us)) (placed_all (takeWhile in_range us) v))"
  by (induction us arbitrary: v) (simp_all add: place_user_in_range)

lemma extend_all_in_range:
  "list_all in_range us \<Longrightarrow>
     extend_all us b = Inr (fold (\<lambda>u b. extend (longitude u, latitude u) b) us b)"
  by (induction us arbitrary: b) (simp_all add: LngLat_convert_in_range)

lemma thrown_simps [simp]:
  "markersRef (thrown u v) = markersRef v" "map_current (thrown u v) = map_current v"
  "mapLoaded (thrown u v) = mapLoaded v"
  by (simp_all add: thrown_def split: option.splits)

lemma thrown_next:
  "next_marker (thrown u v) =
     (if map_of (markersRef v) (user_id u) = None then Suc (next_marker v) else next_marker v)"
  by (simp add: thrown_def split: option.splits)

lemma reconcile_not_ready:
  "\<not> mapLoaded v \<or> map_current v = None \<Longrightarrow> reconcile us v = Inr v"
  by (simp add: reconcile_def)

lemma reconcile_empty:
  "reconcile [] v = Inr (if \<not> mapLoaded v \<or> map_current v = None then v else drop_stale [] v)"
  by (simp add: reconcile_def)

lemma reconcile_ready:
  assumes "mapLoaded v" and "map_current v \<noteq> None" and "us \<noteq> []" and "list_all in_range us"
  shows "\<exists>sw ne mb2. bounds_of us = Some (sw, ne) \<and>
           map_current (drop_stale us (placed_all us v)) = Some mb2 \<and>
           reconcile us v =
             Inr ((drop_stale us (placed_all us v))\<lparr>map_current := Some (mb2\<lparr>camera := Fitted sw ne 50 15\<rparr>)\<rparr>)"
proof -
  obtain sw ne where b: "bounds_of us = Some (sw, ne)"
    using bounds_of_Some [OF assms(3)] by (cases "bounds_of us") auto
  from assms(2) obtain mb where mb: "map_current v = Some mb"
    by blast
  then obtain mb2 where m: "map_current (drop_stale us (placed_all us v)) = Some mb2"
    by (cases "map_current (drop_stale us (placed_all us v))") simp_all
  have "extend_all us None = Inr (Some (sw, ne))"
    using extend_all_in_range [OF assms(4), of None] b by (simp add: bounds_of_def)
  with assms(1,3,4) mb m have "reconcile us v =
      Inr ((drop_stale us (placed_all us v))\<lparr>map_current := Some (mb2\<lparr>camera := Fitted sw ne 50 15\<rparr>)\<rparr>)"
    by (simp add: reconcile_def Let_def fitBounds_def place_all_in_range)
  with b m show ?thesis by blast
qed

lemma reconcile_thrown:
  assumes "mapLoaded v" and "map_current v \<noteq> None" and "\<not> list_all in_range us"
  shows "reconcile us v =
     Inl (InvalidLngLat, thrown (hd (dropWhile in_range us)) (placed_all (takeWhile in_range us) v))"
  using assms by (auto simp: reconcile_def place_all_thrown)


lemma drop_stale_Nil [simp]: "markersRef (drop_stale [] v) = []"
proof -
  have "fst ` set (markersRef (drop_stale [] v)) = {}"
    by (simp add: drop_stale_keys)
  then show ?thesis by simp
qed

subsection \<open>Allocation and the markers on the map\<close>











subsection \<open>The invariant of the component\<close>

text \<open>
  \<open>view_ok\<close> holds when the component is mounted and is kept by the \<open>load\<close> event and
  by every run of the marker effect.
\<close>

lemma view_ok_alt:
  "view_ok v \<longleftrightarrow>
     distinct (map fst (markersRef v)) \<and>
     distinct (map (\<lambda>p. mid (snd p)) (markersRef v)) \<and>
     (\<forall>i \<in> set (map (\<lambda>p. mid (snd p)) (markersRef v)). i < next_marker v) \<and>
     (case map_current v of
        None \<Rightarrow> markersRef v = []
      | Some mb \<Rightarrow>
          (mapLoaded v \<or> markersRef v = []) \<and>
          (\<forall>i \<in> set (attached mb). i < next_marker v) \<and>
          set (map (\<lambda>p. mid (snd p)) (markersRef v)) \<subseteq> set (attached mb))"
  by (auto simp: view_ok_def list_all_iff split: option.splits)

lemma mids_update_position:
  "map_of al k = Some mk \<Longrightarrow>
     map (\<lambda>p. mid (snd p)) (AList.update k (mk\<lparr>position := q\<rparr>) al) = map (\<lambda>p. mid (snd p)) al"
  by (induction al) auto

lemma keys_update_existing:
  "map_of al k = Some mk \<Longrightarrow> map fst (AList.update k x al) = map fst al"
  by (induction al) auto

lemma update_new: "map_of al k = None \<Longrightarrow> AList.update k x al = al @ [(k, x)]"
  by (induction al) auto

lemma update_nonempty_same:
  "map_of al k = Some mk \<Longrightarrow> (AList.update k x al = []) = (al = [])"
  by (cases al) auto

lemma view_ok_mounted: "view_ok mounted_view"
  by (simp add: view_ok_def mounted_view_def)

lemma view_ok_on_load: "view_ok v \<Longrightarrow> view_ok (on_load v)"
  by (auto simp: view_ok_def on_load_def split: option.splits)

lemma view_ok_placed:
  assumes "view_ok v" and "mapLoaded v" and "map_current v = Some mb"
  shows "view_ok (placed u v)"
proof (cases "map_of (markersRef v) (user_id u)")
  case None
  then have "user_id u \<notin> fst ` set (markersRef v)"
    by (simp add: map_of_eq_None_iff)
  with assms None show ?thesis
    by (auto simp: view_ok_alt placed_def addTo_def Let_def update_new less_Suc_eq)
next
  case (Some mk)
  with assms show ?thesis
    by (simp add: view_ok_alt placed_def mids_update_position keys_update_existing)
qed

lemma view_ok_placed_all:
  "view_ok v \<Longrightarrow> mapLoaded v \<Longrightarrow> map_current v \<noteq> None \<Longrightarrow> view_ok (placed_all us v)"
proof (induction us arbitrary: v)
  case Nil
  then show ?case by simp
next
  case (Cons a us)
  from Cons.prems obtain mb where "map_current v = Some mb" by blast
  with Cons.prems have "view_ok (placed a v)" "map_current (placed a v) \<noteq> None"
    by (simp_all add: view_ok_placed placed_map_current)
  with Cons.IH [of "placed a v"] Cons.prems(2) show ?case by simp
qed

lemma view_ok_drop_marker:
  assumes "view_ok v"
  shows "view_ok (drop_marker us k v)"
proof (cases "k \<notin> user_id ` set us \<and> map_of (markersRef v) k \<noteq> None")
  case False
  then have "drop_marker us k v = v"
    by (auto simp: drop_marker_def find_user_None)
  with assms show ?thesis by simp
next
  case True
  then obtain mk where mk: "map_of (markersRef v) k = Some mk" and k: "k \<notin> user_id ` set us"
    by auto
  let ?al = "markersRef v"
  from mk have mem: "(k, mk) \<in> set ?al" by (rule map_of_SomeD)
  from assms have inj: "inj_on (\<lambda>p. mid (snd p)) (set ?al)"
    by (simp add: view_ok_alt distinct_map)
  have gone: "mid mk \<noteq> mid (snd p)" if "p \<in> set ?al" "fst p \<noteq> k" for p
  proof
    assume "mid mk = mid (snd p)"
    with inj mem that(1) have "(k, mk) = p"
      using inj_onD [of "\<lambda>p. mid (snd p)" "set ?al" "(k, mk)" p] by simp
    with that(2) show False by auto
  qed
  have d1: "distinct (map fst (AList.delete k ?al))"
    using assms by (simp add: view_ok_alt AList.distinct_delete)
  have d2: "distinct (map (\<lambda>p. mid (snd p)) (AList.delete k ?al))"
    using assms by (simp add: view_ok_alt AList.delete_eq distinct_map_filter)
  have sub: "set (AList.delete k ?al) \<subseteq> set ?al"
    by (auto simp: AList.delete_eq)
  have rest: "mid (snd p) \<noteq> mid mk" if "p \<in> set (AList.delete k ?al)" for p
    using that gone [of p] by (auto simp: AList.delete_eq)
  from mem assms obtain mb where mb: "map_current v = Some mb"
    by (auto simp: view_ok_alt split: option.splits)
  have v': "drop_marker us k v =
      v\<lparr>map_current := Some (mb\<lparr>attached := removeAll (mid mk) (attached mb)\<rparr>),
        markersRef := AList.delete k ?al\<rparr>"
    using mk k mb by (simp add: drop_marker_def find_user_None remove_marker_def)
  from assms mb have base: "\<forall>i \<in> set (map (\<lambda>p. mid (snd p)) ?al). i < next_marker v"
    "mapLoaded v \<or> ?al = []" "\<forall>i \<in> set (attached mb). i < next_marker v"
    "set (map (\<lambda>p. mid (snd p)) ?al) \<subseteq> set (attached mb)"
    by (simp_all add: view_ok_alt)
  from mem base(2) have loaded: "mapLoaded v" by auto
  have kept: "mid (snd p) < next_marker v \<and> mid (snd p) \<in> set (attached mb) \<and> mid (snd p) \<noteq> mid mk"
    if "p \<in> set (AList.delete k ?al)" for p
  proof -
    from that sub have "p \<in> set ?al" by blast
    with base(1,4) rest [OF that] show ?thesis by auto
  qed
  show ?thesis
    unfolding v' view_ok_alt
    using d1 d2 kept base(3) loaded by auto
qed

lemma view_ok_drop_stale: "view_ok v \<Longrightarrow> view_ok (drop_stale us v)"
proof -
  have "view_ok v \<Longrightarrow> view_ok (fold (drop_marker us) ks v)" for ks
    by (induction ks arbitrary: v) (simp_all add: view_ok_drop_marker)
  then show "view_ok v \<Longrightarrow> view_ok (drop_stale us v)"
    by (simp add: drop_stale_def)
qed

lemma view_ok_camera:
  "view_ok v \<Longrightarrow> map_current v = Some mb \<Longrightarrow> view_ok (v\<lparr>map_current := Some (mb\<lparr>camera := c\<rparr>)\<rparr>)"
  by (simp add: view_ok_def)

lemma view_ok_thrown: "view_ok v \<Longrightarrow> view_ok (thrown u v)"
  by (auto simp: view_ok_alt thrown_def less_Suc_eq split: option.splits)

lemma view_ok_reconcile:
  assumes "view_ok v"
  shows "view_ok (state_of (reconcile us v))"
proof (cases "mapLoaded v \<and> map_current v \<noteq> None")
  case False
  with assms show ?thesis by (auto simp: reconcile_def)
next
  case True
  show ?thesis
  proof (cases "list_all in_range us")
    case False
    have "view_ok (placed_all (takeWhile in_range us) v)"
      using assms True by (simp add: view_ok_placed_all)
    with True False show ?thesis
      by (simp add: reconcile_thrown view_ok_thrown)
  next
    case range: True
    from True assms have ok2: "view_ok (drop_stale us (placed_all us v))"
      by (simp add: view_ok_drop_stale view_ok_placed_all)
    show ?thesis
    proof (cases "us = []")
      case e: True
      from True obtain mb where "map_current v = Some mb" by blast
      with e True ok2 show ?thesis
        by (auto simp: reconcile_empty)
    next
      case False
      from reconcile_ready [of v us] True False range obtain sw ne mb2 where
        "map_current (drop_stale us (placed_all us v)) = Some mb2"
        "reconcile us v =
           Inr ((drop_stale us (placed_all us v))\<lparr>map_current := Some (mb2\<lparr>camera := Fitted sw ne 50 15\<rparr>)\<rparr>)"
        by auto
      with ok2 show ?thesis
        by (simp add: view_ok_camera)
    qed
  qed
qed



subsection \<open>From the participants A and B to A and C\<close>




subsection \<open>Markers and tracked users after a run\<close>




subsection \<open>An empty list of tracked users\<close>

text \<open>
  Claim C7. For an empty list of tracked users the run ends without an exception and
  the camera of the map is the one it found, whatever the markers were before:
  \<open>fitBounds\<close> is not called, so no bounds without a point are ever read.
\<close>

theorem reconcile_empty_keeps_camera:
  "\<exists>v'. reconcile [] v = Inr v' \<and>
        map_option camera (map_current v') = map_option camera (map_current v)"
  by (simp add: reconcile_empty drop_stale_camera)

theorem reconcile_empty_keeps_camera_witness:
  "reconcile [] view_U1_U2 = Inr view_cleared \<and>
   (\<exists>v'. reconcile [] view_U1_U2 = Inr v' \<and>
         map_option camera (map_current v') =
           Some (Fitted (20, 10) (201 / 10, 101 / 10) 50 15)) \<and>
   fitBounds (bounds_of []) \<lparr>camera = Centre (0, 0) 2, attached = []\<rparr> = Inl EmptyBounds"
  using reconcile_empty_keeps_camera [of view_U1_U2]
  by (simp add: view_eval view_U1_U2_def view_cleared_def)

subsection \<open>A notification without a change\<close>






end
